theory Spec2Isabelle
  imports Main "HOL-Library.Log_Nat" "HOL-Library.Sublist"
begin

section \<open>Python values used by the evaluators\<close>

subsection \<open>Strings\<close>

text \<open>
  A Python string is the list of its code points. \<open>str_of\<close> gives the Python string of
  an ASCII literal. \<open>py_isspace\<close> is \<^verbatim>\<open>str.isspace\<close> on one code point; \<^verbatim>\<open>str.strip\<close> and
  \<^verbatim>\<open>\s\<close> of the \<^verbatim>\<open>re\<close> module use the same set: the ASCII controls \<^verbatim>\<open>0x09\<close>--\<^verbatim>\<open>0x0d\<close> and
  \<^verbatim>\<open>0x1c\<close>--\<^verbatim>\<open>0x1f\<close>, the blank, next line \<^verbatim>\<open>0x85\<close>, the no-break space \<^verbatim>\<open>0xa0\<close>, and
  the Unicode spaces and separators \<^verbatim>\<open>0x1680\<close>, \<^verbatim>\<open>0x2000\<close>--\<^verbatim>\<open>0x200a\<close>, \<^verbatim>\<open>0x2028\<close>,
  \<^verbatim>\<open>0x2029\<close>, \<^verbatim>\<open>0x202f\<close>, \<^verbatim>\<open>0x205f\<close> and \<^verbatim>\<open>0x3000\<close>.
\<close>

type_synonym code_point = int

type_synonym py_str = "code_point list"

definition str_of :: "string \<Rightarrow> py_str" where
  "str_of s = map of_char s"

definition py_isspace :: "code_point \<Rightarrow> bool" where
  "py_isspace c =
     ((0x09 \<le> c \<and> c \<le> 0x0D) \<or> (0x1C \<le> c \<and> c \<le> 0x20) \<or> c = 0x85 \<or> c = 0xA0
      \<or> c = 0x1680 \<or> (0x2000 \<le> c \<and> c \<le> 0x200A) \<or> c = 0x2028 \<or> c = 0x2029
      \<or> c = 0x202F \<or> c = 0x205F \<or> c = 0x3000)"

definition strip :: "py_str \<Rightarrow> py_str" where
  "strip s = rev (dropWhile py_isspace (rev (dropWhile py_isspace s)))"

text \<open>\<^verbatim>\<open>re.sub(r'\s+', ' ', text)\<close>: every maximal run of whitespace becomes one blank.\<close>

function collapse_whitespace :: "py_str \<Rightarrow> py_str" where
  "collapse_whitespace [] = []"
| "collapse_whitespace (c # cs) =
     (if py_isspace c then 0x20 # collapse_whitespace (dropWhile py_isspace cs)
      else c # collapse_whitespace cs)"
  by pat_completeness auto
termination
  by (relation "measure length") (auto simp: length_dropWhile_le less_Suc_eq_le)

definition normalize_cell_text :: "py_str \<Rightarrow> py_str" where
  "normalize_cell_text text = strip (collapse_whitespace text)"

text \<open>
  \<^verbatim>\<open>s.replace(old, new)\<close>: non-overlapping occurrences of \<open>old\<close> are replaced from the
  left; an empty \<open>old\<close> matches before every character and at the end.
\<close>

function py_replace :: "py_str \<Rightarrow> py_str \<Rightarrow> py_str \<Rightarrow> py_str" where
  "py_replace old new [] = (if old = [] then new else [])"
| "py_replace old new (c # cs) =
     (if old = [] then new @ c # py_replace old new cs
      else if prefix old (c # cs) then new @ py_replace old new (drop (length old) (c # cs))
      else c # py_replace old new cs)"
  by pat_completeness auto
termination
  by (relation "measure (\<lambda>(old, new, s). length s)") auto

text \<open>\<^verbatim>\<open>sep.join(parts)\<close>.\<close>

fun str_join :: "py_str \<Rightarrow> py_str list \<Rightarrow> py_str" where
  "str_join sep [] = []"
| "str_join sep [x] = x"
| "str_join sep (x # y # ys) = x @ sep @ str_join sep (y # ys)"

subsection \<open>Floats\<close>

text \<open>
  A Python float is an IEEE 754 binary64 number, here the rational it denotes.
  \<open>round_double n d\<close> is the double nearest to \<open>n / d\<close> for \<open>0 \<le> n\<close> and \<open>0 < d\<close>
  (53 significant bits, exponent of the last bit at least \<open>-1074\<close>, ties to the even
  significand), and \<open>None\<close> where the result is out of range (\<^verbatim>\<open>OverflowError\<close>).
  \<open>py_truediv\<close> is \<^verbatim>\<open>a / b\<close> on integers, which CPython rounds correctly from the exact
  quotient; \<open>None\<close> also stands for \<^verbatim>\<open>ZeroDivisionError\<close>.
\<close>

definition round_half_even :: "rat \<Rightarrow> int" where
  "round_half_even x =
     (let f = \<lfloor>x\<rfloor>; r = x - of_int f
      in if r < 1/2 then f else if 1/2 < r then f + 1 else if even f then f else f + 1)"

definition floor_log2 :: "int \<Rightarrow> int \<Rightarrow> int" where
  "floor_log2 n d =
     (let k = bitlen n - bitlen d
      in if (2::rat) powi k \<le> of_int n / of_int d then k else k - 1)"

definition round_double :: "int \<Rightarrow> int \<Rightarrow> rat option" where
  "round_double n d =
     (let e = max (floor_log2 n d - 52) (- 1074);
          y = of_int (round_half_even (of_int n / of_int d / 2 powi e)) * 2 powi e
      in if 2 powi 1024 \<le> y then None else Some y)"

definition py_truediv :: "int \<Rightarrow> int \<Rightarrow> rat option" where
  "py_truediv a b =
     (if b = 0 then None
      else map_option (\<lambda>y. of_int (sgn a * sgn b) * y) (round_double \<bar>a\<bar> \<bar>b\<bar>))"

text \<open>The literals \<^verbatim>\<open>0.005\<close> and \<^verbatim>\<open>0.01\<close> as the doubles Python reads them as.\<close>

definition default_tolerance :: rat where
  "default_tolerance = 5764607523034235 / 2 ^ 60"

definition border_tolerance :: rat where
  "border_tolerance = 5764607523034235 / 2 ^ 59"

subsection \<open>Sequences of checks\<close>

text \<open>
  A check that may raise is a \<open>bool option\<close>, \<open>None\<close> for the exception.
  \<open>any_not [a, b, c]\<close> is the condition \<^verbatim>\<open>not a or not b or not c\<close>, evaluated from the left
  and stopping at the first operand that decides it. \<open>first_mismatch\<close> runs a function's
  checks in order, each one saying whether it found a mismatch: the first mismatch
  returns 0, an exception propagates, and 1 is returned when every check has passed.
\<close>

fun any_not :: "bool option list \<Rightarrow> bool option" where
  "any_not [] = Some False"
| "any_not (a # rest) =
     (case a of None \<Rightarrow> None | Some False \<Rightarrow> Some True | Some True \<Rightarrow> any_not rest)"

fun first_mismatch :: "bool option list \<Rightarrow> int option" where
  "first_mismatch [] = Some 1"
| "first_mismatch (c # rest) =
     (case c of None \<Rightarrow> None | Some True \<Rightarrow> Some 0 | Some False \<Rightarrow> first_mismatch rest)"

section \<open>The presentation evaluator (\<^verbatim>\<open>impress_test_evaluator.py\<close>)\<close>

subsection \<open>The document model\<close>

text \<open>
  The evaluator reads a presentation through the accessors of the document library.
  Each accessor it uses is a field here, holding what the accessor returns. An optional
  field is \<open>None\<close> where the attribute is missing (\<^verbatim>\<open>hasattr\<close> is false), where its value is
  Python's \<^verbatim>\<open>None\<close>, or where reading it raises, as said at each field.
\<close>

datatype MSO_SHAPE_TYPE =
  AUTO_SHAPE | TEXT_BOX | PLACEHOLDER | PICTURE | TABLE | GROUP | OTHER_SHAPE_TYPE int

datatype PP_ALIGN = LEFT | CENTER | RIGHT | JUSTIFY | DISTRIBUTE | OTHER_ALIGN int

text \<open>
  \<^verbatim>\<open>font.underline\<close> is \<^verbatim>\<open>None\<close>, \<^verbatim>\<open>True\<close>, \<^verbatim>\<open>False\<close> or a member of the underline styles,
  an integer enumeration. Python's \<^verbatim>\<open>==\<close> compares the two booleans and the members by
  their integer values (\<^verbatim>\<open>True\<close> is 1, \<^verbatim>\<open>False\<close> is 0), and \<^verbatim>\<open>None\<close> equals only itself;
  \<^verbatim>\<open>is None\<close> and \<^verbatim>\<open>is True\<close> test for the constructors \<open>UNone\<close> and \<open>UTrue\<close>.
\<close>

datatype underline = UNone | UTrue | UFalse | UStyle int

definition underline_value :: "underline \<Rightarrow> int option" where
  "underline_value u =
     (case u of UNone \<Rightarrow> None | UTrue \<Rightarrow> Some 1 | UFalse \<Rightarrow> Some 0 | UStyle n \<Rightarrow> Some n)"

definition underline_equal :: "underline \<Rightarrow> underline \<Rightarrow> bool" where
  "underline_equal u1 u2 = (underline_value u1 = underline_value u2)"

type_synonym RGBColor = "nat \<times> nat \<times> nat"

text \<open>
  A bullet as \<^verbatim>\<open>extract_bullets\<close> returns it: level (the attribute, \<^verbatim>\<open>None\<close> when it is not
  set, or the text \<^verbatim>\<open>No Level\<close>), bullet character, paragraph text and colour.
\<close>

type_synonym bullet = "py_str option \<times> py_str \<times> py_str \<times> py_str"

record font =
  f_name :: "py_str option"
  f_size :: "int option"
  f_bold :: "bool option"
  f_italic :: "bool option"
  f_underline :: underline
  f_color_rgb :: "RGBColor option"  \<comment> \<open>\<open>None\<close>: \<^verbatim>\<open>font.color\<close> has no \<^verbatim>\<open>rgb\<close>\<close>
  f_strike :: "py_str option"  \<comment> \<open>the raw \<^verbatim>\<open>strike\<close> attribute\<close>

record run =
  run_font :: font
  run_part_bullets :: "bullet list option"
    \<comment> \<open>\<^verbatim>\<open>extract_bullets(run.part.blob.decode('utf-8'))\<close>, \<open>None\<close> when that raises\<close>

record pptx_paragraph =
  para_alignment :: "PP_ALIGN option"
  para_text :: py_str
  para_level :: int
  para_runs :: "run list"

record cell =
  cell_text :: py_str
  cell_paragraphs :: "pptx_paragraph list"  \<comment> \<open>\<^verbatim>\<open>cell.text_frame.paragraphs\<close>\<close>

record table =
  table_rows :: "cell list list"  \<comment> \<open>the cells of each row; \<^verbatim>\<open>len(table.rows)\<close> is its length\<close>
  table_columns :: nat  \<comment> \<open>\<^verbatim>\<open>len(table.columns)\<close>\<close>

record line_color =
  color_rgb :: "RGBColor option"  \<comment> \<open>\<open>None\<close>: the colour has no \<^verbatim>\<open>rgb\<close>\<close>
  color_type :: "int option"

record line =
  line_dash_style :: "int option"
  line_width :: "int option"
  line_color :: "line_color option"  \<comment> \<open>\<open>None\<close>: reading \<^verbatim>\<open>line.color\<close> raises\<close>

text \<open>
  A shape. Geometry is in integer length units. \<open>shape_image_md5\<close> is
  \<^verbatim>\<open>hashlib.md5(shape.image.blob).hexdigest()\<close>, \<open>None\<close> when that raises; \<open>shape_table\<close> is
  \<open>None\<close> when reading \<^verbatim>\<open>shape.table\<close> raises; \<open>shape_shapes\<close> are the children of a group.
\<close>

datatype shape = Shape
  (shape_type: MSO_SHAPE_TYPE)
  (shape_text: "py_str option")
  (shape_text_frame: "pptx_paragraph list option")
  (shape_left: int) (shape_top: int) (shape_width: int) (shape_height: int)
  (shape_image_md5: "py_str option")
  (shape_line: "line option")
  (shape_table: "table option")
  (shape_shapes: "shape list")



text \<open>\<^verbatim>\<open>table.cell(row_idx, col_idx)\<close> raises \<^verbatim>\<open>IndexError\<close> outside the stored grid.\<close>

definition table_cell :: "table \<Rightarrow> nat \<Rightarrow> nat \<Rightarrow> cell option" where
  "table_cell t row_idx col_idx =
     (if row_idx < length (table_rows t) \<and> col_idx < length (table_rows t ! row_idx)
      then Some (table_rows t ! row_idx ! col_idx) else None)"

text \<open>
  The index pairs of the nested loops \<^verbatim>\<open>for row_idx in range(len(rows))\<close>,
  \<^verbatim>\<open>for col_idx in range(len(columns))\<close>, in the order they are visited.
\<close>

definition cell_indices :: "table \<Rightarrow> (nat \<times> nat) list" where
  "cell_indices t = List.product [0..<length (table_rows t)] [0..<table_columns t]"

subsection \<open>Helper functions\<close>



definition is_approximately_equal :: "int \<Rightarrow> int \<Rightarrow> rat \<Rightarrow> bool option" where
  "is_approximately_equal val1 val2 tolerance =
     (if val1 = val2 then Some True
      else if val1 = 0 \<and> val2 = 0 then Some True
      else
        let abs_diff = \<bar>val1 - val2\<bar> in
        if abs_diff \<le> 1000 then Some True
        else if val1 = 0 \<or> val2 = 0 then Some False
        else
          (case py_truediv abs_diff (max \<bar>val1\<bar> \<bar>val2\<bar>) of
             None \<Rightarrow> None
           | Some percentage_diff \<Rightarrow> Some (percentage_diff \<le> tolerance)))"

definition normalize_alignment :: "PP_ALIGN option \<Rightarrow> PP_ALIGN" where
  "normalize_alignment alignment = (case alignment of None \<Rightarrow> LEFT | Some a \<Rightarrow> a)"



definition level_or_0 :: "py_str option \<Rightarrow> py_str" where
  "level_or_0 lvl = (case lvl of None \<Rightarrow> str_of ''0'' | Some l \<Rightarrow> l)"

definition compare_bullets :: "bullet list \<Rightarrow> bullet list \<Rightarrow> bool" where
  "compare_bullets bullets1 bullets2 =
     (if length bullets1 \<noteq> length bullets2 then False
      else list_all
             (\<lambda>((lvl1, char1, text1, _), (lvl2, char2, text2, _)).
                \<not> (text1 \<noteq> text2 \<or> char1 \<noteq> char2) \<and> \<not> (level_or_0 lvl1 \<noteq> level_or_0 lvl2))
             (zip bullets1 bullets2))"

definition fonts_effectively_equal :: "bool option \<Rightarrow> bool option \<Rightarrow> bool \<Rightarrow> bool" where
  "fonts_effectively_equal val1 val2 treat_none_as_false =
     (if val1 = val2 then True
      else if treat_none_as_false then
        (val1 = None \<or> val1 = Some False) \<and> (val2 = None \<or> val2 = Some False)
      else False)"

subsection \<open>Shape matching\<close>

text \<open>
  The text of a table's signature: the non-empty normalised cell texts in row-major
  order, joined by a bar; \<open>None\<close> when reading the table or one of its cells raises.
\<close>

definition table_signature_text :: "shape \<Rightarrow> py_str option" where
  "table_signature_text s =
     (case shape_table s of
        None \<Rightarrow> None
      | Some t \<Rightarrow>
          map_option
            (\<lambda>cells. str_join (str_of ''|'')
               (filter (\<lambda>cell_text. cell_text \<noteq> [])
                  (map (\<lambda>c. normalize_cell_text (cell_text c)) cells)))
            (those (map (\<lambda>(row_idx, col_idx). table_cell t row_idx col_idx) (cell_indices t))))"

definition get_shape_signature :: "shape \<Rightarrow> MSO_SHAPE_TYPE \<times> py_str \<times> py_str" where
  "get_shape_signature s =
     (let text_content = (case shape_text s of Some t \<Rightarrow> strip t | None \<Rightarrow> []);
          image_hash =
            (if shape_type s = PICTURE
             then (case shape_image_md5 s of Some h \<Rightarrow> h | None \<Rightarrow> [])
             else []);
          text_content =
            (if shape_type s = TABLE
             then (case table_signature_text s of Some t \<Rightarrow> t | None \<Rightarrow> text_content)
             else text_content)
      in (shape_type s, text_content, image_hash))"

definition TEXT_SHAPE_TYPES :: "MSO_SHAPE_TYPE set" where
  "TEXT_SHAPE_TYPES = {TEXT_BOX, AUTO_SHAPE, PLACEHOLDER}"

text \<open>
  The four parts of a candidate's score, in the order the loop body adds them. The type
  part is \<open>None\<close> where the loop body reaches its \<^verbatim>\<open>continue\<close>. Every shape of the document
  library has the attribute \<^verbatim>\<open>left\<close>, so the position part is always computed.
\<close>

definition type_score :: "MSO_SHAPE_TYPE \<Rightarrow> MSO_SHAPE_TYPE \<Rightarrow> int option" where
  "type_score target_type cand_type =
     (if target_type = cand_type then Some 10
      else if target_type \<in> TEXT_SHAPE_TYPES \<and> cand_type \<in> TEXT_SHAPE_TYPES then Some 5
      else None)"

definition text_score :: "py_str \<Rightarrow> py_str \<Rightarrow> int" where
  "text_score target_text cand_text =
     (if target_text \<noteq> [] \<and> cand_text \<noteq> [] then
        (if target_text = cand_text then 100
         else if sublist target_text cand_text \<or> sublist cand_text target_text then 50
         else 0)
      else if target_text = [] \<and> cand_text = [] then 20
      else 0)"

definition hash_score :: "py_str \<Rightarrow> py_str \<Rightarrow> int" where
  "hash_score target_hash cand_hash =
     (if target_hash \<noteq> [] \<and> cand_hash \<noteq> [] then (if target_hash = cand_hash then 100 else 0)
      else 0)"

definition position_score :: "shape \<Rightarrow> shape \<Rightarrow> int" where
  "position_score target_shape candidate =
     (let pos_diff = \<bar>shape_left target_shape - shape_left candidate\<bar>
                   + \<bar>shape_top target_shape - shape_top candidate\<bar>
      in if pos_diff < 100000 then 10 else if pos_diff < 500000 then 5 else 0)"

definition candidate_score :: "shape \<Rightarrow> shape \<Rightarrow> int option" where
  "candidate_score target_shape candidate =
     (let (target_type, target_text, target_hash) = get_shape_signature target_shape;
          (cand_type, cand_text, cand_hash) = get_shape_signature candidate
      in case type_score target_type cand_type of
           None \<Rightarrow> None
         | Some score \<Rightarrow>
             Some (score + text_score target_text cand_text + hash_score target_hash cand_hash
                   + position_score target_shape candidate))"

text \<open>
  The loop of \<^verbatim>\<open>find_matching_shape\<close> over \<^verbatim>\<open>enumerate(candidate_shapes)\<close>: \<open>idx\<close> is the index
  of the first remaining candidate, the triple is \<^verbatim>\<open>(best_match, best_match_idx, best_score)\<close>.
\<close>

fun find_matching_loop ::
  "shape \<Rightarrow> int set \<Rightarrow> int \<Rightarrow> shape list \<Rightarrow> shape option \<times> int \<times> int \<Rightarrow> shape option \<times> int \<times> int"
where
  "find_matching_loop target_shape used_indices idx [] best = best"
| "find_matching_loop target_shape used_indices idx (candidate # rest) (best_match, best_match_idx, best_score) =
     (if idx \<in> used_indices
      then find_matching_loop target_shape used_indices (idx + 1) rest
             (best_match, best_match_idx, best_score)
      else
        (case candidate_score target_shape candidate of
           None \<Rightarrow>
             find_matching_loop target_shape used_indices (idx + 1) rest
               (best_match, best_match_idx, best_score)
         | Some score \<Rightarrow>
             if score > best_score
             then find_matching_loop target_shape used_indices (idx + 1) rest
                    (Some candidate, idx, score)
             else find_matching_loop target_shape used_indices (idx + 1) rest
                    (best_match, best_match_idx, best_score)))"

definition find_matching_shape :: "shape \<Rightarrow> shape list \<Rightarrow> int set \<Rightarrow> shape option \<times> int" where
  "find_matching_shape target_shape candidate_shapes used_indices =
     (case find_matching_loop target_shape used_indices 0 candidate_shapes (None, - 1, - 1) of
        (best_match, best_match_idx, best_score) \<Rightarrow> (best_match, best_match_idx))"

subsection \<open>Shape comparison\<close>

text \<open>
  The comparison functions return 1 or 0 as the source does, and \<open>None\<close> where the source
  raises. The mismatch log is only written, never read by the comparison, and is left out.
\<close>

definition or_0 :: "int option \<Rightarrow> int" where
  "or_0 v = (case v of None \<Rightarrow> 0 | Some w \<Rightarrow> w)"

definition border_color_mismatch :: "line \<Rightarrow> line \<Rightarrow> bool" where
  "border_color_mismatch line1 line2 =
     (case (line_color line1, line_color line2) of
        (Some color1, Some color2) \<Rightarrow>
          if color_rgb color1 \<noteq> None \<and> color_rgb color2 \<noteq> None
          then color_rgb color1 \<noteq> color_rgb color2
          else color_type color1 \<noteq> color_type color2
      | _ \<Rightarrow> False)"

definition compare_picture_shape :: "shape \<Rightarrow> shape \<Rightarrow> int option" where
  "compare_picture_shape shape1 shape2 =
     first_mismatch
       ([any_not
           [is_approximately_equal (shape_left shape1) (shape_left shape2) default_tolerance,
            is_approximately_equal (shape_top shape1) (shape_top shape2) default_tolerance],
         any_not
           [is_approximately_equal (shape_width shape1) (shape_width shape2) default_tolerance,
            is_approximately_equal (shape_height shape1) (shape_height shape2) default_tolerance],
         Some (case (shape_image_md5 shape1, shape_image_md5 shape2) of
                 (Some hash1, Some hash2) \<Rightarrow> hash1 \<noteq> hash2
               | _ \<Rightarrow> False)] @
        (case (shape_line shape1, shape_line shape2) of
           (Some line1, Some line2) \<Rightarrow>
             [Some (line_dash_style line1 \<noteq> line_dash_style line2),
              any_not
                [is_approximately_equal (or_0 (line_width line1)) (or_0 (line_width line2))
                   border_tolerance],
              Some (border_color_mismatch line1 line2)]
         | _ \<Rightarrow> []))"

definition POSITION_TOLERANCE_EMU :: int where
  "POSITION_TOLERANCE_EMU = 2000"

definition table_underline_mismatch :: "underline \<Rightarrow> underline \<Rightarrow> bool" where
  "table_underline_mismatch u1 u2 =
     (\<not> underline_equal u1 u2 \<and> \<not> (u1 = UNone \<and> u2 = UNone) \<and>
      ((u1 = UNone) \<noteq> (u2 = UNone) \<or> (u1 = UTrue) \<noteq> (u2 = UTrue)))"

definition table_run_mismatch :: "run \<Rightarrow> run \<Rightarrow> bool" where
  "table_run_mismatch run1 run2 =
     (let font1 = run_font run1; font2 = run_font run2 in
      (f_color_rgb font1 \<noteq> None \<and> f_color_rgb font2 \<noteq> None \<and> f_color_rgb font1 \<noteq> f_color_rgb font2)
      \<or> \<not> fonts_effectively_equal (f_bold font1) (f_bold font2) True
      \<or> \<not> fonts_effectively_equal (f_italic font1) (f_italic font2) True
      \<or> table_underline_mismatch (f_underline font1) (f_underline font2))"

definition table_cell_mismatch :: "cell \<Rightarrow> cell \<Rightarrow> bool" where
  "table_cell_mismatch cell1 cell2 =
     (normalize_cell_text (cell_text cell1) \<noteq> normalize_cell_text (cell_text cell2)
      \<or> length (cell_paragraphs cell1) \<noteq> length (cell_paragraphs cell2)
      \<or> list_ex
           (\<lambda>(para1, para2).
              length (para_runs para1) \<noteq> length (para_runs para2)
              \<or> list_ex (\<lambda>(run1, run2). table_run_mismatch run1 run2)
                   (zip (para_runs para1) (para_runs para2)))
           (zip (cell_paragraphs cell1) (cell_paragraphs cell2)))"

fun compare_table_cells :: "table \<Rightarrow> table \<Rightarrow> (nat \<times> nat) list \<Rightarrow> int option" where
  "compare_table_cells table1 table2 [] = Some 1"
| "compare_table_cells table1 table2 ((row_idx, col_idx) # rest) =
     (case (table_cell table1 row_idx col_idx, table_cell table2 row_idx col_idx) of
        (Some cell1, Some cell2) \<Rightarrow>
          if table_cell_mismatch cell1 cell2 then Some 0
          else compare_table_cells table1 table2 rest
      | _ \<Rightarrow> None)"

definition compare_table_shape :: "shape \<Rightarrow> shape \<Rightarrow> int option" where
  "compare_table_shape shape1 shape2 =
     (if \<bar>shape_left shape1 - shape_left shape2\<bar> > POSITION_TOLERANCE_EMU
         \<or> \<bar>shape_top shape1 - shape_top shape2\<bar> > POSITION_TOLERANCE_EMU
      then Some 0
      else
        (case any_not
                [is_approximately_equal (shape_width shape1) (shape_width shape2) default_tolerance,
                 is_approximately_equal (shape_height shape1) (shape_height shape2) default_tolerance] of
           None \<Rightarrow> None
         | Some True \<Rightarrow> Some 0
         | Some False \<Rightarrow>
             (case (shape_table shape1, shape_table shape2) of
                (Some table1, Some table2) \<Rightarrow>
                  if length (table_rows table1) \<noteq> length (table_rows table2)
                     \<or> table_columns table1 \<noteq> table_columns table2
                  then Some 0
                  else compare_table_cells table1 table2 (cell_indices table1)
              | _ \<Rightarrow> None)))"

definition compare_shape_geometry :: "shape \<Rightarrow> shape \<Rightarrow> bool option" where
  "compare_shape_geometry shape1 shape2 =
     map_option Not
       (any_not
          [is_approximately_equal (shape_left shape1) (shape_left shape2) default_tolerance,
           is_approximately_equal (shape_top shape1) (shape_top shape2) default_tolerance,
           is_approximately_equal (shape_width shape1) (shape_width shape2) default_tolerance,
           is_approximately_equal (shape_height shape1) (shape_height shape2) default_tolerance])"

definition text_underline_mismatch :: "underline \<Rightarrow> underline \<Rightarrow> bool" where
  "text_underline_mismatch u1 u2 =
     (\<not> underline_equal u1 u2 \<and>
      ((u1 \<noteq> UNone \<and> u2 \<noteq> UNone)
       \<or> (u1 = UNone \<and> u2 = UTrue) \<or> (u1 = UTrue \<and> u2 = UNone)))"

definition strike_or_noStrike :: "py_str option \<Rightarrow> py_str" where
  "strike_or_noStrike a = (case a of None \<Rightarrow> str_of ''noStrike'' | Some v \<Rightarrow> v)"

definition text_run_mismatch :: "run \<Rightarrow> run \<Rightarrow> bool" where
  "text_run_mismatch run1 run2 =
     (let font1 = run_font run1; font2 = run_font run2 in
      f_name font1 \<noteq> f_name font2
      \<or> f_size font1 \<noteq> f_size font2
      \<or> \<not> fonts_effectively_equal (f_bold font1) (f_bold font2) True
      \<or> \<not> fonts_effectively_equal (f_italic font1) (f_italic font2) True
      \<or> (f_color_rgb font1 \<noteq> None \<and> f_color_rgb font2 \<noteq> None \<and> f_color_rgb font1 \<noteq> f_color_rgb font2)
      \<or> text_underline_mismatch (f_underline font1) (f_underline font2)
      \<or> strike_or_noStrike (f_strike font1) \<noteq> strike_or_noStrike (f_strike font2)
      \<or> (case (run_part_bullets run1, run_part_bullets run2) of
            (Some bullets1, Some bullets2) \<Rightarrow> \<not> compare_bullets bullets1 bullets2
          | _ \<Rightarrow> False))"

definition text_paragraph_mismatch :: "pptx_paragraph \<Rightarrow> pptx_paragraph \<Rightarrow> bool" where
  "text_paragraph_mismatch para1 para2 =
     (normalize_alignment (para_alignment para1) \<noteq> normalize_alignment (para_alignment para2)
      \<or> para_text para1 \<noteq> para_text para2
      \<or> para_level para1 \<noteq> para_level para2
      \<or> length (para_runs para1) \<noteq> length (para_runs para2)
      \<or> list_ex (\<lambda>(run1, run2). text_run_mismatch run1 run2)
           (zip (para_runs para1) (para_runs para2)))"

definition compare_text_shape :: "shape \<Rightarrow> shape \<Rightarrow> int option" where
  "compare_text_shape shape1 shape2 =
     (case (shape_text shape1, shape_text shape2) of
        (Some text1, Some text2) \<Rightarrow>
          if strip text1 \<noteq> strip text2 then Some 0
          else
            (case (shape_text_frame shape1, shape_text_frame shape2) of
               (Some paragraphs1, Some paragraphs2) \<Rightarrow>
                 if length paragraphs1 \<noteq> length paragraphs2 then Some 0
                 else if list_ex (\<lambda>(para1, para2). text_paragraph_mismatch para1 para2)
                           (zip paragraphs1 paragraphs2)
                 then Some 0
                 else Some 1
             | _ \<Rightarrow> None)
      | _ \<Rightarrow> None)"

subsection \<open>The main comparison\<close>

text \<open>
  The checks the shape loop of \<^verbatim>\<open>compare_pptx_files\<close> runs on a test shape and the golden
  shape matched to it.
\<close>

definition compare_matched_shapes :: "shape \<Rightarrow> shape \<Rightarrow> int option" where
  "compare_matched_shapes shape1 shape2 =
     first_mismatch
       [if shape_type shape1 = PICTURE
        then map_option (\<lambda>result. result = 0) (compare_picture_shape shape1 shape2)
        else Some False,
        if shape_type shape1 = TABLE
        then map_option (\<lambda>result. result = 0) (compare_table_shape shape1 shape2)
        else Some False,
        map_option Not (compare_shape_geometry shape1 shape2),
        if shape_text shape1 \<noteq> None \<and> shape_text shape2 \<noteq> None
        then map_option (\<lambda>result. result = 0) (compare_text_shape shape1 shape2)
        else Some False]"


text \<open>
  The two pairing loops of \<^verbatim>\<open>compare_pptx_files\<close> have the same shape: each test shape
  asks \<^verbatim>\<open>find_matching_shape\<close> for a golden shape outside the used set, adds the returned
  index to the set, and runs its checks on the pair. \<open>pairing_loop\<close> is that loop with the
  checks as the parameter \<open>compare\<close>. Its result is \<open>Some 0\<close> where the loop returns 0,
  \<open>None\<close> where a check raises and \<open>Some 1\<close> where the loop runs to its end, together with
  the used set and the golden indices in the order they were added to it (the indices the
  source prints in its \<^verbatim>\<open>test:i <-> golden:j\<close> contexts).
\<close>

fun pairing_loop ::
  "(shape \<Rightarrow> shape \<Rightarrow> int option) \<Rightarrow> shape list \<Rightarrow> shape list \<Rightarrow> int set \<Rightarrow> int list
     \<Rightarrow> int option \<times> int set \<times> int list"
where
  "pairing_loop compare [] golden_shapes used_golden_indices claimed =
     (Some 1, used_golden_indices, claimed)"
| "pairing_loop compare (test_shape # rest) golden_shapes used_golden_indices claimed =
     (case find_matching_shape test_shape golden_shapes used_golden_indices of
        (None, golden_idx) \<Rightarrow> (Some 0, used_golden_indices, claimed)
      | (Some golden_shape, golden_idx) \<Rightarrow>
          (case compare test_shape golden_shape of
             None \<Rightarrow> (None, insert golden_idx used_golden_indices, claimed @ [golden_idx])
           | Some result \<Rightarrow>
               if result = 0
               then (Some 0, insert golden_idx used_golden_indices, claimed @ [golden_idx])
               else pairing_loop compare rest golden_shapes
                      (insert golden_idx used_golden_indices) (claimed @ [golden_idx])))"





subsection \<open>The table check of the positional variant (\<^verbatim>\<open>temp.py\<close>)\<close>

text \<open>
  \<^verbatim>\<open>temp.py\<close> pairs shapes by position and validates a table inline, with the same
  tolerance function and the same constant: 0 where the block returns 0, 1 where the
  comparison goes on.
\<close>

definition temp_validate_table :: "shape \<Rightarrow> shape \<Rightarrow> int option" where
  "temp_validate_table shape1 shape2 =
     (let pos_diff_left = \<bar>shape_left shape1 - shape_left shape2\<bar>;
          pos_diff_top = \<bar>shape_top shape1 - shape_top shape2\<bar>
      in first_mismatch
           [Some (pos_diff_left > POSITION_TOLERANCE_EMU \<or> pos_diff_top > POSITION_TOLERANCE_EMU),
            any_not
              [is_approximately_equal (shape_width shape1) (shape_width shape2) default_tolerance,
               is_approximately_equal (shape_height shape1) (shape_height shape2) default_tolerance] ])"

section \<open>The word-document evaluator (\<^verbatim>\<open>writer_test_evaluator.py\<close>)\<close>

text \<open>
  A run as \<^verbatim>\<open>extract_paragraphs_with_full_details\<close> stores it: a dictionary with the six
  keys below. The three flags are read by truth value, so an absent flag (\<open>None\<close>) counts
  as false.
\<close>

record run_formatting =
  rf_text :: py_str
  rf_bold :: "bool option"
  rf_italic :: "bool option"
  rf_underline :: "bool option"
  rf_font_size :: "py_str option"
  rf_font_name :: "py_str option"

text \<open>The dictionary \<^verbatim>\<open>normalize_formatting\<close> returns.\<close>

record normalized_formatting =
  nf_bold :: bool
  nf_italic :: bool
  nf_underline :: bool
  nf_font_size :: "py_str option"
  nf_font_name :: "py_str option"

definition normalize_font_name :: "py_str option \<Rightarrow> py_str option" where
  "normalize_font_name font =
     (case font of
        None \<Rightarrow> None
      | Some f \<Rightarrow>
          if f = [] then None
          else
            (let f = py_replace (str_of '' (Headings)'') [] (py_replace (str_of '' (Body)'') [] f);
                 f = py_replace (str_of '' (headings)'') [] (py_replace (str_of '' (body)'') [] f);
                 f = strip f
             in if f \<noteq> [] then Some f else None))"

definition truthy :: "bool option \<Rightarrow> bool" where
  "truthy v = (v = Some True)"

definition normalize_formatting :: "run_formatting \<Rightarrow> normalized_formatting" where
  "normalize_formatting run_fmt =
     \<lparr>nf_bold = truthy (rf_bold run_fmt),
      nf_italic = truthy (rf_italic run_fmt),
      nf_underline = truthy (rf_underline run_fmt),
      nf_font_size = rf_font_size run_fmt,
      nf_font_name = normalize_font_name (rf_font_name run_fmt)\<rparr>"

text \<open>
  The loop of \<^verbatim>\<open>merge_consecutive_runs\<close> over \<^verbatim>\<open>runs_formatting[1:]\<close>, with the segment being
  built (\<open>current\<close>) and the finished segments (\<open>merged\<close>).
\<close>

fun merge_loop :: "run_formatting \<Rightarrow> run_formatting list \<Rightarrow> run_formatting list \<Rightarrow> run_formatting list" where
  "merge_loop current [] merged = (if rf_text current \<noteq> [] then merged @ [current] else merged)"
| "merge_loop current (run # rest) merged =
     (let current_fmt = normalize_formatting current;
          run_fmt = normalize_formatting run
      in if nf_bold current_fmt = nf_bold run_fmt
            \<and> nf_italic current_fmt = nf_italic run_fmt
            \<and> nf_underline current_fmt = nf_underline run_fmt
            \<and> nf_font_size current_fmt = nf_font_size run_fmt
            \<and> nf_font_name current_fmt = nf_font_name run_fmt
         then merge_loop (current\<lparr>rf_text := rf_text current @ rf_text run\<rparr>) rest merged
         else merge_loop run rest (if rf_text current \<noteq> [] then merged @ [current] else merged))"

definition merge_consecutive_runs :: "run_formatting list \<Rightarrow> run_formatting list" where
  "merge_consecutive_runs runs_formatting =
     (case runs_formatting of [] \<Rightarrow> [] | first # rest \<Rightarrow> merge_loop first rest [])"

text \<open>
  The loop of \<^verbatim>\<open>compare_runs_semantic\<close> over the zipped segments. The result is the pair of
  \<^verbatim>\<open>is_match\<close> and the error code; the message, which nothing reads but the log, is left out.
\<close>

fun compare_segments :: "(run_formatting \<times> run_formatting) list \<Rightarrow> bool \<times> string option" where
  "compare_segments [] = (True, None)"
| "compare_segments ((actual_run, golden_run) # rest) =
     (let actual_norm = normalize_formatting actual_run;
          golden_norm = normalize_formatting golden_run
      in if strip (rf_text actual_run) \<noteq> strip (rf_text golden_run)
         then (False, Some ''FAIL_RUN_TEXT_CHANGED'')
         else if nf_bold actual_norm \<noteq> nf_bold golden_norm
         then (False, Some ''FAIL_RUN_BOLD_CHANGED'')
         else if nf_italic actual_norm \<noteq> nf_italic golden_norm
         then (False, Some ''FAIL_RUN_ITALIC_CHANGED'')
         else if nf_underline actual_norm \<noteq> nf_underline golden_norm
         then (False, Some ''FAIL_RUN_UNDERLINE_CHANGED'')
         else if nf_font_size actual_norm \<noteq> nf_font_size golden_norm
         then (False, Some ''FAIL_RUN_FONT_SIZE_CHANGED'')
         else if nf_font_name actual_norm \<noteq> nf_font_name golden_norm
         then (False, Some ''FAIL_RUN_FONT_NAME_CHANGED'')
         else compare_segments rest)"

definition uniform_formatting :: "run_formatting list \<Rightarrow> bool" where
  "uniform_formatting merged =
     (case merged of
        [] \<Rightarrow> True
      | first # _ \<Rightarrow> list_all (\<lambda>r. normalize_formatting r = normalize_formatting first) merged)"

definition compare_runs_semantic ::
  "run_formatting list \<Rightarrow> run_formatting list \<Rightarrow> nat \<Rightarrow> bool \<times> string option"
where
  "compare_runs_semantic actual_runs golden_runs para_index =
     (let actual_merged = filter (\<lambda>r. strip (rf_text r) \<noteq> []) (merge_consecutive_runs actual_runs);
          golden_merged = filter (\<lambda>r. strip (rf_text r) \<noteq> []) (merge_consecutive_runs golden_runs)
      in if length actual_merged \<noteq> length golden_merged then
           (let actual_full_text = concat (map rf_text actual_merged);
                golden_full_text = concat (map rf_text golden_merged)
            in case (actual_merged, golden_merged) of
                 (actual_first # _, golden_first # _) \<Rightarrow>
                   if strip actual_full_text = strip golden_full_text
                      \<and> uniform_formatting actual_merged \<and> uniform_formatting golden_merged
                      \<and> normalize_formatting actual_first = normalize_formatting golden_first
                   then (True, None)
                   else (False, Some ''FAIL_PARAGRAPH_RUN_COUNT_CHANGED'')
               | _ \<Rightarrow> (False, Some ''FAIL_PARAGRAPH_RUN_COUNT_CHANGED''))
         else compare_segments (zip actual_merged golden_merged))"

section \<open>Well-formed documents\<close>

text \<open>
  A document is well formed when the accessors the comparison reads do not raise on it:
  the background colour of every slide can be read, a shape has a text exactly when it
  has a text frame (the document library gives both to the same shapes), a shape of type
  table has a table, and each row of that table holds a cell for every column. The same
  holds for the children of a shape.
\<close>

definition well_formed_table :: "table \<Rightarrow> bool" where
  "well_formed_table t = list_all (\<lambda>row. table_columns t \<le> length row) (table_rows t)"



section \<open>Properties of the float model\<close>

lemma round_half_even_cases:
  "round_half_even z = \<lfloor>z\<rfloor> \<or> round_half_even z = \<lfloor>z\<rfloor> + 1"
  by (simp add: round_half_even_def Let_def)

lemma round_half_even_of_int: "round_half_even (of_int K) = K"
  by (simp add: round_half_even_def Let_def)

lemma round_half_even_le: 
  assumes "z \<le> of_int K" shows "round_half_even z \<le> K"
proof (cases "z = of_int K")
  case True
  then show ?thesis by (simp add: round_half_even_of_int)
next
  case False
  with assms have "z < of_int K" by simp
  then have "\<lfloor>z\<rfloor> < K" by (simp add: floor_less_iff)
  then show ?thesis using round_half_even_cases [of z] by auto
qed

lemma round_half_even_ge:
  assumes "of_int K \<le> z" shows "K \<le> round_half_even z"
proof -
  from assms have "K \<le> \<lfloor>z\<rfloor>" by (simp add: le_floor_iff)
  then show ?thesis using round_half_even_cases [of z] by auto
qed

lemma round_half_even_le_odd:
  assumes "odd N"
  shows "round_half_even z \<le> N \<longleftrightarrow> z < of_int N + 1/2"
proof (cases "\<lfloor>z\<rfloor> < N")
  case True
  then have "\<lfloor>z\<rfloor> + 1 \<le> N" by simp
  moreover have "z < of_int (\<lfloor>z\<rfloor> + 1)" by linarith
  moreover have "of_int (\<lfloor>z\<rfloor> + 1) \<le> (of_int N :: rat)" using \<open>\<lfloor>z\<rfloor> + 1 \<le> N\<close> by (simp only: of_int_le_iff)
  ultimately show ?thesis using round_half_even_cases [of z] by auto
next
  case False
  then have ge: "N \<le> \<lfloor>z\<rfloor>" by simp
  show ?thesis
  proof (cases "\<lfloor>z\<rfloor> = N")
    case True
    then have "z - of_int N = z - of_int \<lfloor>z\<rfloor>" by simp
    with True assms show ?thesis
      by (auto simp: round_half_even_def Let_def)
  next
    case False
    with ge have "N + 1 \<le> \<lfloor>z\<rfloor>" by simp
    then have "of_int (N + 1) \<le> z" by (simp only: le_floor_iff)
    moreover have "N < round_half_even z"
      using \<open>N + 1 \<le> \<lfloor>z\<rfloor>\<close> round_half_even_cases [of z] by auto
    ultimately show ?thesis by auto
  qed
qed

lemma pow2_bitlen:
  assumes "0 < n"
  shows "(2::rat) powi (bitlen n - 1) \<le> of_int n" "of_int n < (2::rat) powi (bitlen n)"
proof -
  from assms have b: "1 \<le> bitlen n" by (auto simp: bitlen_alt_def)
  from bitlen_bounds [OF assms]
  have l: "2 ^ nat (bitlen n - 1) \<le> n" and u: "n < 2 ^ nat (bitlen n)" by auto
  have "(of_int (2 ^ nat (bitlen n - 1)) :: rat) \<le> of_int n"
    using l by (simp only: of_int_le_iff)
  then show "(2::rat) powi (bitlen n - 1) \<le> of_int n"
    using b by (simp add: power_int_def)
  have "(of_int n :: rat) < of_int (2 ^ nat (bitlen n))"
    using u by (simp only: of_int_less_iff)
  then show "of_int n < (2::rat) powi (bitlen n)"
    using b by (simp add: power_int_def)
qed

lemma floor_log2_bounds:
  assumes "0 < n" "0 < d"
  shows "(2::rat) powi (floor_log2 n d) \<le> of_int n / of_int d"
    and "of_int n / of_int d < (2::rat) powi (floor_log2 n d + 1)"
proof -
  let ?k = "bitlen n - bitlen d"
  let ?x = "(of_int n :: rat) / of_int d"
  have dpos: "(0::rat) < of_int d" using assms by simp
  note nb = pow2_bitlen [OF assms(1)] and db = pow2_bitlen [OF assms(2)]
  have lo: "(2::rat) powi (?k - 1) \<le> ?x"
  proof -
    have "(2::rat) powi (?k - 1) * of_int d \<le> 2 powi (?k - 1) * 2 powi (bitlen d)"
      using db(2) by (intro mult_left_mono) auto
    also have "\<dots> = 2 powi (bitlen n - 1)"
      by (simp add: power_int_add [symmetric])
    also have "\<dots> \<le> of_int n" by (rule nb(1))
    finally show ?thesis using dpos by (simp add: pos_le_divide_eq)
  qed
  have hi: "?x < (2::rat) powi (?k + 1)"
  proof -
    have "of_int n < (2::rat) powi (bitlen n)" by (rule nb(2))
    also have "\<dots> = 2 powi (?k + 1) * 2 powi (bitlen d - 1)"
      by (simp add: power_int_add [symmetric])
    also have "\<dots> \<le> 2 powi (?k + 1) * of_int d"
      using db(1) by (intro mult_left_mono) auto
    finally show ?thesis using dpos by (simp add: pos_divide_less_eq)
  qed
  show "(2::rat) powi (floor_log2 n d) \<le> ?x"
    using lo by (simp add: floor_log2_def Let_def)
  show "?x < (2::rat) powi (floor_log2 n d + 1)"
    using hi by (auto simp: floor_log2_def Let_def not_le)
qed


lemma default_tolerance_double: "round_double 5 1000 = Some default_tolerance"
  unfolding default_tolerance_def by code_simp

lemma floor_log2_le_1:
  assumes "0 < n" "0 < d" "n \<le> 2 * d"
  shows "floor_log2 n d \<le> 1"
proof (rule ccontr)
  assume "\<not> floor_log2 n d \<le> 1"
  then have "2 \<le> floor_log2 n d" by simp
  then have "(2::rat) powi 2 \<le> 2 powi (floor_log2 n d)"
    by (intro power_int_increasing) auto
  also have "\<dots> \<le> of_int n / of_int d" by (rule floor_log2_bounds(1) [OF assms(1,2)])
  finally have "4 * (of_int d :: rat) \<le> of_int n"
    using assms(2) by (simp add: pos_le_divide_eq)
  then have "(of_int (4 * d) :: rat) \<le> of_int n" by simp
  then have "4 * d \<le> n" by (simp only: of_int_le_iff)
  with assms show False by simp
qed


lemma rounded_le_pow2:
  assumes "x \<le> 2 powi j" "e \<le> j"
  shows "of_int (round_half_even (x / 2 powi e)) * 2 powi e \<le> (2::rat) powi j"
proof -
  have p: "(0::rat) < 2 powi e" by simp
  have eq: "(2::rat) powi j / 2 powi e = of_int (2 ^ nat (j - e))"
    using assms(2) by (simp add: power_int_diff [symmetric] power_int_nonneg_exp)
  have "x / 2 powi e \<le> 2 powi j / 2 powi e"
    using assms(1) p by (simp add: divide_right_mono)
  then have "round_half_even (x / 2 powi e) \<le> 2 ^ nat (j - e)"
    unfolding eq by (rule round_half_even_le)
  then have "(of_int (round_half_even (x / 2 powi e)) :: rat) \<le> of_int (2 ^ nat (j - e))"
    by (simp only: of_int_le_iff)
  then have "of_int (round_half_even (x / 2 powi e)) * 2 powi e
               \<le> ((2::rat) powi j / 2 powi e) * 2 powi e"
    unfolding eq using p by (intro mult_right_mono) auto
  then show ?thesis by simp
qed

lemma rounded_ge_pow2:
  assumes "2 powi j \<le> x" "e \<le> j"
  shows "(2::rat) powi j \<le> of_int (round_half_even (x / 2 powi e)) * 2 powi e"
proof -
  have p: "(0::rat) < 2 powi e" by simp
  have eq: "(2::rat) powi j / 2 powi e = of_int (2 ^ nat (j - e))"
    using assms(2) by (simp add: power_int_diff [symmetric] power_int_nonneg_exp)
  have "2 powi j / 2 powi e \<le> x / 2 powi e"
    using assms(1) p by (simp add: divide_right_mono)
  then have "2 ^ nat (j - e) \<le> round_half_even (x / 2 powi e)"
    unfolding eq by (rule round_half_even_ge)
  then have "(of_int (2 ^ nat (j - e)) :: rat) \<le> of_int (round_half_even (x / 2 powi e))"
    by (simp only: of_int_le_iff)
  then have "((2::rat) powi j / 2 powi e) * 2 powi e
               \<le> of_int (round_half_even (x / 2 powi e)) * 2 powi e"
    unfolding eq using p by (intro mult_right_mono) auto
  then show ?thesis by simp
qed

lemma round_double_threshold:
  assumes "0 < n" "0 < d" "n \<le> 2 * d"
  shows "\<exists>y. round_double n d = Some y \<and>
           (y \<le> default_tolerance \<longleftrightarrow> n * 2 ^ 61 < 11529215046068471 * d)"
proof -
  define x :: rat where "x = of_int n / of_int d"
  define lg where "lg = floor_log2 n d"
  define e where "e = max (lg - 52) (- 1074)"
  define y :: rat where "y = of_int (round_half_even (x / 2 powi e)) * 2 powi e"
  have dpos: "(0::rat) < of_int d" using assms(2) by simp
  have lo: "2 powi lg \<le> x" and hi: "x < 2 powi (lg + 1)"
    unfolding x_def lg_def using floor_log2_bounds [OF assms(1,2)] by auto
  have lg1: "lg \<le> 1" unfolding lg_def by (rule floor_log2_le_1 [OF assms])
  have x2: "x \<le> 2 powi 1"
  proof -
    have "(of_int n :: rat) \<le> of_int (2 * d)" using assms(3) by (simp only: of_int_le_iff)
    then show ?thesis unfolding x_def using dpos by (simp add: pos_divide_le_eq)
  qed
  have "y \<le> 2 powi 1" unfolding y_def
    by (rule rounded_le_pow2 [OF x2]) (use lg1 in \<open>simp add: e_def\<close>)
  also have "\<dots> < (2::rat) powi 1024"
    by (intro power_int_strict_increasing) auto
  finally have rd: "round_double n d = Some y"
    unfolding round_double_def Let_def y_def e_def lg_def x_def by simp
  have xlt: "x < of_int a / of_int b \<longleftrightarrow> n * b < a * d" if "0 < b" for a b :: int
  proof -
    have "x < of_int a / of_int b \<longleftrightarrow> (of_int (n * b) :: rat) < of_int (a * d)"
      unfolding x_def using dpos that by (simp add: field_simps)
    then show ?thesis by (simp only: of_int_less_iff)
  qed
  have "y \<le> default_tolerance \<longleftrightarrow> n * 2 ^ 61 < 11529215046068471 * d"
  proof -
    consider "lg \<le> - 9" | "lg = - 8" | "- 7 \<le> lg" by linarith
    then show ?thesis
    proof cases
      case 1
      have "x < 2 powi (lg + 1)" by (rule hi)
      also have "\<dots> \<le> (2::rat) powi (- 8)"
        using 1 by (intro power_int_increasing) auto
      finally have xs: "x < 2 powi (- 8)" .
      have "y \<le> 2 powi (- 8)" unfolding y_def
        by (rule rounded_le_pow2) (use xs 1 in \<open>auto simp: e_def\<close>)
      then have "y \<le> default_tolerance"
        by (simp add: default_tolerance_def power_int_minus)
      moreover have "x < of_int 1 / of_int 256" using xs by (simp add: power_int_minus)
      then have "n * 256 < 1 * d" by (subst (asm) xlt) auto
      then have "n * 2 ^ 61 < 11529215046068471 * d" using assms by simp
      ultimately show ?thesis by simp
    next
      case 2
      then have e: "e = - 60" by (simp add: e_def)
      have "y \<le> default_tolerance \<longleftrightarrow>
              round_half_even (x / 2 powi e) \<le> 5764607523034235"
      proof -
        have "y \<le> default_tolerance \<longleftrightarrow>
          (of_int (round_half_even (x / 2 powi e)) :: rat) \<le> of_int 5764607523034235"
          unfolding y_def default_tolerance_def e
          by (simp add: power_int_minus field_simps)
        then show ?thesis by (simp only: of_int_le_iff)
      qed
      also have "\<dots> \<longleftrightarrow> x / 2 powi e < of_int 5764607523034235 + 1 / 2"
        by (rule round_half_even_le_odd) simp
      also have "\<dots> \<longleftrightarrow> x < of_int 11529215046068471 / of_int (2 ^ 61)"
        unfolding e by (simp add: power_int_minus field_simps)
      also have "\<dots> \<longleftrightarrow> n * 2 ^ 61 < 11529215046068471 * d"
        by (rule xlt) simp
      finally show ?thesis .
    next
      case 3
      have "(2::rat) powi (- 7) \<le> 2 powi lg"
        using 3 by (intro power_int_increasing) auto
      also have "\<dots> \<le> y" unfolding y_def
        by (rule rounded_ge_pow2 [OF lo]) (use 3 in \<open>simp add: e_def\<close>)
      finally have "\<not> y \<le> default_tolerance"
        by (simp add: default_tolerance_def power_int_minus)
      moreover have "(2::rat) powi (- 7) \<le> x"
        using lo 3 by (meson order_trans power_int_increasing one_le_numeral)
      then have "\<not> x < of_int 1 / of_int 128" by (simp add: power_int_minus)
      then have "\<not> n * 128 < 1 * d" by (subst (asm) xlt) auto
      then have "\<not> n * 2 ^ 61 < 11529215046068471 * d" using assms by simp
      ultimately show ?thesis by simp
    qed
  qed
  with rd show ?thesis by simp
qed

lemma border_tolerance_double: "round_double 1 100 = Some border_tolerance"
  unfolding border_tolerance_def by code_simp

section \<open>The tolerance comparator\<close>

lemma abs_diff_le_twice_max: "\<bar>a - b\<bar> \<le> 2 * max \<bar>a\<bar> \<bar>b\<bar>" for a b :: int
  by (simp add: max_def abs_if)

lemma py_truediv_pos:
  assumes "0 < n" "0 < d"
  shows "py_truediv n d = round_double n d"
  using assms by (cases "round_double n d") (simp_all add: py_truediv_def)

lemma is_approximately_equal_default:
  assumes "1000 < \<bar>a - b\<bar>" "a \<noteq> 0" "b \<noteq> 0"
  shows "is_approximately_equal a b default_tolerance =
           Some (\<bar>a - b\<bar> * 2 ^ 61 < 11529215046068471 * max \<bar>a\<bar> \<bar>b\<bar>)"
proof -
  let ?n = "\<bar>a - b\<bar>" and ?d = "max \<bar>a\<bar> \<bar>b\<bar>"
  have n: "0 < ?n" using assms(1) by simp
  have d: "0 < ?d" using assms(2) by simp
  from round_double_threshold [OF n d abs_diff_le_twice_max]
  obtain y where y: "round_double ?n ?d = Some y"
    and t: "y \<le> default_tolerance \<longleftrightarrow> ?n * 2 ^ 61 < 11529215046068471 * ?d"
    by blast
  have "py_truediv ?n ?d = Some y" using y by (simp only: py_truediv_pos [OF n d])
  moreover have "a \<noteq> b" using assms(1) by auto
  ultimately show ?thesis
    using assms t by (simp add: is_approximately_equal_def Let_def)
qed

lemma float_threshold_exact:
  fixes n d :: int
  assumes "0 < d" "d \<le> 2 ^ 53"
  shows "n * 2 ^ 61 < 11529215046068471 * d \<longleftrightarrow> 200 * n \<le> d"
  using assms by auto

lemma ratio_le_iff:
  assumes "0 < d"
  shows "(of_int n / of_int d \<le> (5 / 1000 :: rat)) \<longleftrightarrow> 200 * n \<le> d"
proof -
  have "(of_int n / of_int d \<le> (5 / 1000 :: rat)) \<longleftrightarrow> (of_int (200 * n) :: rat) \<le> of_int d"
    using assms by (simp add: field_simps)
  then show ?thesis by (simp only: of_int_le_iff)
qed

text \<open>
  C1 (as amended). With the default tolerance the comparator returns true on equal
  operands and whenever the operands differ by at most 1000, false when one operand is
  zero and the difference exceeds 1000, and otherwise, for operands of magnitude at most
  \<open>2 ^ 53\<close>, true exactly when the difference divided by the larger magnitude is at most
  0.005. It returns a result for all operands. For every \<open>v\<close> it returns true on \<open>v\<close> and
  \<open>v + 1000\<close>, and false on \<open>v\<close> and \<open>v + 1001\<close> whenever 1001 exceeds 0.5 per cent of the
  larger of the two magnitudes.
\<close>

theorem numbers_equal_hybrid_tolerance:
  "is_approximately_equal a a default_tolerance = Some True
   \<and> (\<bar>a - b\<bar> \<le> 1000 \<longrightarrow> is_approximately_equal a b default_tolerance = Some True)
   \<and> ((a = 0 \<or> b = 0) \<and> 1000 < \<bar>a - b\<bar> \<longrightarrow>
        is_approximately_equal a b default_tolerance = Some False)
   \<and> (a \<noteq> 0 \<and> b \<noteq> 0 \<and> 1000 < \<bar>a - b\<bar> \<and> max \<bar>a\<bar> \<bar>b\<bar> \<le> 2 ^ 53 \<longrightarrow>
        is_approximately_equal a b default_tolerance =
          Some (of_int \<bar>a - b\<bar> / of_int (max \<bar>a\<bar> \<bar>b\<bar>) \<le> (5 / 1000 :: rat)))
   \<and> is_approximately_equal v (v + 1000) default_tolerance = Some True
   \<and> ((5 / 1000 :: rat) * of_int (max \<bar>v\<bar> \<bar>v + 1001\<bar>) < 1001 \<longrightarrow>
        is_approximately_equal v (v + 1001) default_tolerance = Some False)
   \<and> is_approximately_equal a b default_tolerance \<noteq> None"
proof (intro conjI impI)
  show "is_approximately_equal a b default_tolerance \<noteq> None"
  proof (cases "1000 < \<bar>a - b\<bar> \<and> a \<noteq> 0 \<and> b \<noteq> 0")
    case True
    then show ?thesis by (simp add: is_approximately_equal_default)
  next
    case False
    then show ?thesis by (auto simp: is_approximately_equal_def Let_def)
  qed
next
  show "is_approximately_equal a a default_tolerance = Some True"
    by (simp add: is_approximately_equal_def)
  show "is_approximately_equal a b default_tolerance = Some True" if "\<bar>a - b\<bar> \<le> 1000"
    using that by (simp add: is_approximately_equal_def Let_def)
  show "is_approximately_equal a b default_tolerance = Some False"
    if "(a = 0 \<or> b = 0) \<and> 1000 < \<bar>a - b\<bar>"
    using that by (auto simp: is_approximately_equal_def Let_def)
  show "is_approximately_equal a b default_tolerance =
          Some (of_int \<bar>a - b\<bar> / of_int (max \<bar>a\<bar> \<bar>b\<bar>) \<le> (5 / 1000 :: rat))"
    if h: "a \<noteq> 0 \<and> b \<noteq> 0 \<and> 1000 < \<bar>a - b\<bar> \<and> max \<bar>a\<bar> \<bar>b\<bar> \<le> 2 ^ 53"
  proof -
    have d: "0 < max \<bar>a\<bar> \<bar>b\<bar>" using h by (simp add: max_def)
    have "is_approximately_equal a b default_tolerance =
            Some (\<bar>a - b\<bar> * 2 ^ 61 < 11529215046068471 * max \<bar>a\<bar> \<bar>b\<bar>)"
      using h by (intro is_approximately_equal_default) auto
    also have "\<dots> = Some (200 * \<bar>a - b\<bar> \<le> max \<bar>a\<bar> \<bar>b\<bar>)"
      using float_threshold_exact [OF d, of "\<bar>a - b\<bar>"] h by simp
    also have "\<dots> = Some (of_int \<bar>a - b\<bar> / of_int (max \<bar>a\<bar> \<bar>b\<bar>) \<le> (5 / 1000 :: rat))"
      by (simp only: ratio_le_iff [OF d])
    finally show ?thesis .
  qed
  show "is_approximately_equal v (v + 1000) default_tolerance = Some True"
    by (simp add: is_approximately_equal_def Let_def)
  show "is_approximately_equal v (v + 1001) default_tolerance = Some False"
    if h: "(5 / 1000 :: rat) * of_int (max \<bar>v\<bar> \<bar>v + 1001\<bar>) < 1001"
  proof -
    let ?m = "max \<bar>v\<bar> \<bar>v + 1001\<bar>"
    have "(of_int ?m :: rat) < of_int 200200" using h by simp
    then have m: "?m < 200200" by (simp only: of_int_less_iff)
    show ?thesis
    proof (cases "v = 0 \<or> v + 1001 = 0")
      case True
      then show ?thesis by (auto simp: is_approximately_equal_def Let_def)
    next
      case False
      then have "is_approximately_equal v (v + 1001) default_tolerance =
                   Some (\<bar>v - (v + 1001)\<bar> * 2 ^ 61 < 11529215046068471 * ?m)"
        by (intro is_approximately_equal_default) auto
      also have "\<dots> = Some False"
      proof -
        define m' where "m' = ?m"
        have "m' < 200200" using m by (simp only: m'_def)
        then have "\<not> \<bar>v - (v + 1001)\<bar> * 2 ^ 61 < 11529215046068471 * m'" by simp
        then show ?thesis by (simp only: m'_def)
      qed
      finally show ?thesis .
    qed
  qed
qed

theorem numbers_equal_hybrid_tolerance_witness:
  "is_approximately_equal 914400 914400 default_tolerance = Some True
   \<and> is_approximately_equal 914400 915400 default_tolerance = Some True
   \<and> is_approximately_equal 0 5000 default_tolerance = Some False
   \<and> is_approximately_equal 1000000 1004000 default_tolerance = Some True
   \<and> is_approximately_equal 1000000 1006000 default_tolerance = Some False
   \<and> is_approximately_equal 100000 101001 default_tolerance = Some False"
  using numbers_equal_hybrid_tolerance [of 914400 915400 914400]
    numbers_equal_hybrid_tolerance [of 0 5000 100000]
    numbers_equal_hybrid_tolerance [of 1000000 1004000 0]
    numbers_equal_hybrid_tolerance [of 1000000 1006000 0]
  by simp

text \<open>
  C1 as stated fails twice. On 200000 and 201001 the number 1001 exceeds 0.5 per cent
  of \<open>v = 200000\<close>, yet the comparator returns true, because it divides by the larger
  magnitude 201001. On \<open>10 ^ 16 - 1\<close> and an operand smaller by \<open>5 * 10 ^ 13\<close> the exact
  ratio exceeds 0.005, yet the float quotient rounds onto the double 0.005 and the
  comparator returns true.
\<close>

theorem numbers_equal_boundary_counterexample:
  "is_approximately_equal 200000 (200000 + 1001) default_tolerance = Some True
   \<and> (5 / 1000 :: rat) * 200000 < 1001
   \<and> is_approximately_equal 9999999999999999 9949999999999999 default_tolerance = Some True
   \<and> \<not> (of_int \<bar>9999999999999999 - 9949999999999999\<bar>
           / of_int (max \<bar>9999999999999999\<bar> \<bar>9949999999999999\<bar>) \<le> (5 / 1000 :: rat))"
proof -
  have "is_approximately_equal 200000 (200000 + 1001) default_tolerance = Some True"
    by (subst is_approximately_equal_default) simp_all
  moreover have "is_approximately_equal 9999999999999999 9949999999999999 default_tolerance
                   = Some True"
    by (subst is_approximately_equal_default) simp_all
  ultimately show ?thesis by simp
qed

text \<open>
  C9. The comparator is symmetric in its two operands, for every tolerance: it reads
  them only through \<open>\<bar>val1 - val2\<bar>\<close>, \<open>max \<bar>val1\<bar> \<bar>val2\<bar>\<close> and tests that treat both alike.
\<close>

theorem is_approximately_equal_symmetric:
  "is_approximately_equal a b tolerance = is_approximately_equal b a tolerance"
proof (cases "a = b")
  case True
  then show ?thesis by simp
next
  case False
  then have ne: "b \<noteq> a" by simp
  have d: "\<bar>a - b\<bar> = \<bar>b - a\<bar>" by (rule abs_minus_commute)
  have m: "max \<bar>a\<bar> \<bar>b\<bar> = max \<bar>b\<bar> \<bar>a\<bar>" by (rule max.commute)
  have z: "(a = 0 \<and> b = 0) = (b = 0 \<and> a = 0)" "(a = 0 \<or> b = 0) = (b = 0 \<or> a = 0)"
    by auto
  show ?thesis
    unfolding is_approximately_equal_def Let_def d m z using False ne by simp
qed

section \<open>The fuzzy element matcher\<close>

lemma get_shape_signature_type: "fst (get_shape_signature s) = shape_type s"
  by (simp add: get_shape_signature_def Let_def)

lemma candidate_score_eq:
  "candidate_score t c =
     map_option
       (\<lambda>score. score
          + text_score (fst (snd (get_shape_signature t))) (fst (snd (get_shape_signature c)))
          + hash_score (snd (snd (get_shape_signature t))) (snd (snd (get_shape_signature c)))
          + position_score t c)
       (type_score (shape_type t) (shape_type c))"
proof -
  obtain tt tx th where t: "get_shape_signature t = (tt, tx, th)" by (cases "get_shape_signature t")
  obtain ct cx ch where c: "get_shape_signature c = (ct, cx, ch)" by (cases "get_shape_signature c")
  have "tt = shape_type t" "ct = shape_type c"
    using get_shape_signature_type [of t] get_shape_signature_type [of c] t c by simp_all
  then show ?thesis
    by (simp add: candidate_score_def t c split: option.splits)
qed

lemma candidate_score_gate:
  "candidate_score t c = None \<longleftrightarrow> type_score (shape_type t) (shape_type c) = None"
  by (simp add: candidate_score_eq)

lemma text_score_nonneg: "0 \<le> text_score a b"
  by (simp add: text_score_def)

lemma hash_score_nonneg: "0 \<le> hash_score a b"
  by (simp add: hash_score_def)

lemma position_score_nonneg: "0 \<le> position_score a b"
  by (simp add: position_score_def Let_def)

lemma type_score_ge_5: "type_score a b = Some s \<Longrightarrow> 5 \<le> s"
  by (auto simp: type_score_def split: if_splits)

lemma candidate_score_ge_5:
  assumes "candidate_score t c = Some s"
  shows "5 \<le> s"
proof -
  from assms obtain ts where ts: "type_score (shape_type t) (shape_type c) = Some ts"
    and s: "s = ts
          + text_score (fst (snd (get_shape_signature t))) (fst (snd (get_shape_signature c)))
          + hash_score (snd (snd (get_shape_signature t))) (snd (snd (get_shape_signature c)))
          + position_score t c"
    by (auto simp: candidate_score_eq)
  from type_score_ge_5 [OF ts] show ?thesis
    unfolding s
    using text_score_nonneg [of "fst (snd (get_shape_signature t))" "fst (snd (get_shape_signature c))"]
      hash_score_nonneg [of "snd (snd (get_shape_signature t))" "snd (snd (get_shape_signature c))"]
      position_score_nonneg [of t c]
    by linarith
qed

lemma find_matching_loop_skip:
  assumes "\<forall>k<length cs. idx + int k \<in> used \<or> candidate_score t (cs ! k) = None"
  shows "find_matching_loop t used idx cs (bm, bi, bs) = (bm, bi, bs)"
  using assms
proof (induction cs arbitrary: idx)
  case Nil
  then show ?case by simp
next
  case (Cons c cs)
  have rest: "\<forall>k<length cs. (idx + 1) + int k \<in> used \<or> candidate_score t (cs ! k) = None"
  proof (intro allI impI)
    fix k assume "k < length cs"
    then have "Suc k < length (c # cs)" by simp
    from Cons.prems [rule_format, OF this]
    have "idx + int (Suc k) \<in> used \<or> candidate_score t ((c # cs) ! Suc k) = None" .
    moreover have "idx + int (Suc k) = (idx + 1) + int k" by simp
    ultimately show "(idx + 1) + int k \<in> used \<or> candidate_score t (cs ! k) = None"
      by (simp add: add.assoc)
  qed
  have ih: "find_matching_loop t used (idx + 1) cs (bm, bi, bs) = (bm, bi, bs)"
    by (rule Cons.IH [OF rest])
  have "0 < length (c # cs)" by simp
  from Cons.prems [rule_format, OF this]
  have "idx + int 0 \<in> used \<or> candidate_score t ((c # cs) ! 0) = None" .
  then have "idx \<in> used \<or> candidate_score t c = None" by simp
  then show ?case
  proof
    assume "idx \<in> used"
    then show ?thesis using ih by simp
  next
    assume "candidate_score t c = None"
    then show ?thesis using ih by simp
  qed
qed

lemma find_matching_loop_result:
  assumes "find_matching_loop t used idx cs (bm, bi, bs) = (bm', bi', bs')"
  shows "(bm', bi', bs') = (bm, bi, bs) \<or>
         (\<exists>k<length cs. bm' = Some (cs ! k) \<and> bi' = idx + int k \<and> idx + int k \<notin> used
              \<and> candidate_score t (cs ! k) = Some bs' \<and> bs < bs')"
  using assms
proof (induction cs arbitrary: idx bm bi bs)
  case Nil
  then show ?case by simp
next
  case (Cons c cs)
  let ?P = "\<lambda>k. bm' = Some ((c # cs) ! k) \<and> bi' = idx + int k \<and> idx + int k \<notin> used
              \<and> candidate_score t ((c # cs) ! k) = Some bs'"
  have shift: "\<exists>k<length (c # cs). ?P k \<and> b < bs'"
    if "\<exists>k<length cs. bm' = Some (cs ! k) \<and> bi' = (idx + 1) + int k \<and> (idx + 1) + int k \<notin> used
              \<and> candidate_score t (cs ! k) = Some bs' \<and> b < bs'" for b
  proof -
    from that obtain k where "k < length cs" "bm' = Some (cs ! k)" "bi' = (idx + 1) + int k"
      "(idx + 1) + int k \<notin> used" "candidate_score t (cs ! k) = Some bs'" "b < bs'" by blast
    moreover have "idx + int (Suc k) = (idx + 1) + int k" by simp
    ultimately have "Suc k < length (c # cs) \<and> ?P (Suc k) \<and> b < bs'"
      by (simp only: length_Cons nth_Cons_Suc Suc_less_eq simp_thms)
    then show ?thesis by blast
  qed
  show ?case
  proof (cases "idx \<in> used")
    case True
    with Cons.prems have "find_matching_loop t used (idx + 1) cs (bm, bi, bs) = (bm', bi', bs')"
      by simp
    from Cons.IH [OF this] shift [of bs] show ?thesis by blast
  next
    case unused: False
    show ?thesis
    proof (cases "candidate_score t c")
      case None
      with unused Cons.prems
      have "find_matching_loop t used (idx + 1) cs (bm, bi, bs) = (bm', bi', bs')" by simp
      from Cons.IH [OF this] shift [of bs] show ?thesis by blast
    next
      case (Some score)
      show ?thesis
      proof (cases "bs < score")
        case True
        with unused Some Cons.prems
        have "find_matching_loop t used (idx + 1) cs (Some c, idx, score) = (bm', bi', bs')"
          by simp
        from Cons.IH [OF this]
        consider "(bm', bi', bs') = (Some c, idx, score)"
          | "\<exists>k<length cs. bm' = Some (cs ! k) \<and> bi' = (idx + 1) + int k \<and> (idx + 1) + int k \<notin> used
              \<and> candidate_score t (cs ! k) = Some bs' \<and> score < bs'" by blast
        then show ?thesis
        proof cases
          case 1
          with unused Some True have "0 < length (c # cs) \<and> ?P 0 \<and> bs < bs'" by simp
          then show ?thesis by blast
        next
          case 2
          then obtain k where k: "k < length cs" "bm' = Some (cs ! k)" "bi' = (idx + 1) + int k"
            "(idx + 1) + int k \<notin> used" "candidate_score t (cs ! k) = Some bs'" "score < bs'"
            by blast
          with True have "bs < bs'" by simp
          with k have "\<exists>k<length cs. bm' = Some (cs ! k) \<and> bi' = (idx + 1) + int k
              \<and> (idx + 1) + int k \<notin> used \<and> candidate_score t (cs ! k) = Some bs' \<and> bs < bs'"
            by blast
          from shift [OF this] show ?thesis by blast
        qed
      next
        case False
        with unused Some Cons.prems
        have "find_matching_loop t used (idx + 1) cs (bm, bi, bs) = (bm', bi', bs')" by simp
        from Cons.IH [OF this] shift [of bs] show ?thesis by blast
      qed
    qed
  qed
qed

lemma find_matching_loop_score_mono:
  "bs \<le> snd (snd (find_matching_loop t used idx cs (bm, bi, bs)))"
proof (induction cs arbitrary: idx bm bi bs)
  case Nil
  then show ?case by simp
next
  case (Cons c cs)
  show ?case
  proof (cases "candidate_score t c")
    case None
    then show ?thesis using Cons.IH by simp
  next
    case (Some score)
    have "score \<le> snd (snd (find_matching_loop t used (idx + 1) cs (Some c, idx, score)))"
      by (rule Cons.IH)
    moreover have "bs \<le> snd (snd (find_matching_loop t used (idx + 1) cs (bm, bi, bs)))"
      by (rule Cons.IH)
    ultimately show ?thesis using Some by simp
  qed
qed

lemma find_matching_loop_reaches:
  assumes "k < length cs" "idx + int k \<notin> used" "candidate_score t (cs ! k) = Some s"
  shows "s \<le> snd (snd (find_matching_loop t used idx cs (bm, bi, bs)))"
  using assms
proof (induction cs arbitrary: idx k bm bi bs)
  case Nil
  then show ?case by simp
next
  case (Cons c cs)
  show ?case
  proof (cases k)
    case 0
    with Cons.prems have u: "idx \<notin> used" and sc: "candidate_score t c = Some s" by simp_all
    show ?thesis
    proof (cases "bs < s")
      case True
      then show ?thesis
        using u sc find_matching_loop_score_mono [of s t used "idx + 1" cs "Some c" idx] by simp
    next
      case False
      then have "s \<le> bs" by simp
      also have "bs \<le> snd (snd (find_matching_loop t used (idx + 1) cs (bm, bi, bs)))"
        by (rule find_matching_loop_score_mono)
      finally show ?thesis using u sc False by simp
    qed
  next
    case (Suc j)
    have e: "idx + int (Suc j) = (idx + 1) + int j" by simp
    from Cons.prems have j: "j < length cs" "(idx + 1) + int j \<notin> used"
      "candidate_score t (cs ! j) = Some s"
      unfolding Suc e by (simp_all add: add.assoc)
    note ih = Cons.IH [OF j]
    show ?thesis
    proof (cases "candidate_score t c")
      case None
      then show ?thesis using ih [of bm bi bs] by simp
    next
      case (Some score)
      then show ?thesis using ih [of bm bi bs] ih [of "Some c" idx score] by simp
    qed
  qed
qed

lemma find_matching_shape_cases:
  "find_matching_shape t cs used = (None, - 1) \<or>
   (\<exists>k<length cs. find_matching_shape t cs used = (Some (cs ! k), int k) \<and> int k \<notin> used
        \<and> candidate_score t (cs ! k) \<noteq> None)"
proof -
  obtain bm' bi' bs' where r: "find_matching_loop t used 0 cs (None, - 1, - 1) = (bm', bi', bs')"
    by (cases "find_matching_loop t used 0 cs (None, - 1, - 1)")
  from find_matching_loop_result [OF r]
  show ?thesis by (auto simp: find_matching_shape_def r)
qed

lemma find_matching_shape_None_iff:
  "find_matching_shape t cs used = (None, - 1) \<longleftrightarrow>
     (\<forall>k<length cs. int k \<in> used \<or> candidate_score t (cs ! k) = None)"
proof
  assume none: "find_matching_shape t cs used = (None, - 1)"
  show "\<forall>k<length cs. int k \<in> used \<or> candidate_score t (cs ! k) = None"
  proof (intro allI impI, rule ccontr)
    fix k assume k: "k < length cs"
      and "\<not> (int k \<in> used \<or> candidate_score t (cs ! k) = None)"
    then obtain s where u: "0 + int k \<notin> used" and s: "candidate_score t (cs ! k) = Some s"
      by auto
    have "s \<le> snd (snd (find_matching_loop t used 0 cs (None, - 1, - 1)))"
      by (rule find_matching_loop_reaches [OF k u s])
    moreover have "5 \<le> s" by (rule candidate_score_ge_5 [OF s])
    ultimately have "find_matching_loop t used 0 cs (None, - 1, - 1) \<noteq> (None, - 1, - 1)"
      by auto
    moreover obtain bm' bi' bs'
      where r: "find_matching_loop t used 0 cs (None, - 1, - 1) = (bm', bi', bs')"
      by (cases "find_matching_loop t used 0 cs (None, - 1, - 1)")
    ultimately have "bm' \<noteq> None"
      using find_matching_loop_result [OF r] by auto
    with none r show False by (simp add: find_matching_shape_def)
  qed
next
  assume "\<forall>k<length cs. int k \<in> used \<or> candidate_score t (cs ! k) = None"
  then have "\<forall>k<length cs. 0 + int k \<in> used \<or> candidate_score t (cs ! k) = None" by simp
  from find_matching_loop_skip [OF this]
  show "find_matching_shape t cs used = (None, - 1)"
    by (simp add: find_matching_shape_def)
qed

lemma type_score_None_iff:
  "type_score a b = None \<longleftrightarrow>
     a \<noteq> b \<and> \<not> (a \<in> TEXT_SHAPE_TYPES \<and> b \<in> TEXT_SHAPE_TYPES)"
  by (simp add: type_score_def)

text \<open>
  C2 (as amended). The matcher returns no match, \<open>(None, -1)\<close>, exactly when every
  candidate index is in the used set or holds a candidate that the type gate rejects (its
  type differs from the target's and the two are not both text types). That covers the
  empty list and the list whose indices are all used. In every other case, that is
  whenever an unused candidate passes the type gate, the matcher returns a candidate of
  the list together with its index, and that index is not in the used set.
\<close>

theorem find_matching_shape_no_match_iff:
  "(find_matching_shape target_shape candidate_shapes used_indices = (None, - 1) \<longleftrightarrow>
     (\<forall>idx<length candidate_shapes.
        int idx \<in> used_indices
        \<or> (shape_type target_shape \<noteq> shape_type (candidate_shapes ! idx)
            \<and> \<not> (shape_type target_shape \<in> TEXT_SHAPE_TYPES
                   \<and> shape_type (candidate_shapes ! idx) \<in> TEXT_SHAPE_TYPES))))
   \<and> (find_matching_shape target_shape candidate_shapes used_indices = (None, - 1)
        \<or> (\<exists>idx<length candidate_shapes.
              find_matching_shape target_shape candidate_shapes used_indices
                = (Some (candidate_shapes ! idx), int idx)
              \<and> int idx \<notin> used_indices))"
proof
  show "find_matching_shape target_shape candidate_shapes used_indices = (None, - 1) \<longleftrightarrow>
     (\<forall>idx<length candidate_shapes.
        int idx \<in> used_indices
        \<or> (shape_type target_shape \<noteq> shape_type (candidate_shapes ! idx)
            \<and> \<not> (shape_type target_shape \<in> TEXT_SHAPE_TYPES
                   \<and> shape_type (candidate_shapes ! idx) \<in> TEXT_SHAPE_TYPES)))"
    by (simp only: find_matching_shape_None_iff candidate_score_gate type_score_None_iff)
  show "find_matching_shape target_shape candidate_shapes used_indices = (None, - 1)
        \<or> (\<exists>idx<length candidate_shapes.
              find_matching_shape target_shape candidate_shapes used_indices
                = (Some (candidate_shapes ! idx), int idx)
              \<and> int idx \<notin> used_indices)"
    using find_matching_shape_cases [of target_shape candidate_shapes used_indices] by blast
qed

theorem find_matching_shape_no_match_iff_witness:
  "find_matching_shape
     (Shape PICTURE None None 500 500 200 200 (Some (str_of ''d41d8cd9'')) None None [])
     [Shape TABLE None None 500 500 200 200 None None None [],
      Shape PICTURE None None 0 0 200 200 (Some (str_of ''d41d8cd9'')) None None [] ]
     {1} = (None, - 1)
   \<and> find_matching_shape
     (Shape PICTURE None None 500 500 200 200 (Some (str_of ''d41d8cd9'')) None None [])
     [Shape PICTURE None None 0 0 200 200 (Some (str_of ''d41d8cd9'')) None None [] ]
     {} = (Some (Shape PICTURE None None 0 0 200 200 (Some (str_of ''d41d8cd9'')) None None []), 0)"
proof -
  let ?P = "Shape PICTURE None None 500 500 200 200 (Some (str_of ''d41d8cd9'')) None None []"
  let ?T = "Shape TABLE None None 500 500 200 200 None None None []"
  let ?Q = "Shape PICTURE None None 0 0 200 200 (Some (str_of ''d41d8cd9'')) None None []"
  from find_matching_shape_no_match_iff [of ?P "[?T, ?Q]" "{1}"]
  have used: "find_matching_shape ?P [?T, ?Q] {1} = (None, - 1)"
    by (simp add: less_Suc_eq TEXT_SHAPE_TYPES_def)
  from find_matching_shape_no_match_iff [of ?P "[?Q]" "{}"]
  have "find_matching_shape ?P [?Q] {} = (Some ?Q, 0)"
    by auto
  with used show ?thesis by simp
qed

text \<open>
  C2 as stated fails: with a picture as target and one unused table as the only candidate
  the list is not empty and index 0 is not used, yet the matcher returns no match.
\<close>

theorem find_matching_shape_unused_counterexample:
  "find_matching_shape
     (Shape PICTURE None None 500 500 200 200 (Some (str_of ''d41d8cd9'')) None None [])
     [Shape TABLE None None 500 500 200 200 None None None [] ] {} = (None, - 1)
   \<and> [Shape TABLE None None 500 500 200 200 None None None [] ] \<noteq> []
   \<and> (0::int) \<notin> {}"
  by code_simp

lemma find_matching_shape_Some:
  assumes "find_matching_shape t cs used = (Some m, i)"
  shows "0 \<le> i \<and> nat i < length cs \<and> m = cs ! nat i \<and> i \<notin> used
         \<and> candidate_score t m \<noteq> None"
  using find_matching_shape_cases [of t cs used] assms by auto

text \<open>
  C5. In the type gate of the matcher a candidate of the target's type scores 10 for its
  type; a candidate of another type scores 5 when both types are among text box, auto
  shape and placeholder; every other candidate gets no score at all and is skipped. So
  a returned match has the target's type or both are text types, and a table, picture
  or group is never matched with a shape of another type.
\<close>

theorem type_compatibility_gate:
  "(shape_type candidate = shape_type target_shape \<longrightarrow>
      candidate_score target_shape candidate =
        Some (10
          + text_score (fst (snd (get_shape_signature target_shape)))
              (fst (snd (get_shape_signature candidate)))
          + hash_score (snd (snd (get_shape_signature target_shape)))
              (snd (snd (get_shape_signature candidate)))
          + position_score target_shape candidate))
   \<and> (shape_type candidate \<noteq> shape_type target_shape
        \<and> shape_type target_shape \<in> {TEXT_BOX, AUTO_SHAPE, PLACEHOLDER}
        \<and> shape_type candidate \<in> {TEXT_BOX, AUTO_SHAPE, PLACEHOLDER} \<longrightarrow>
      candidate_score target_shape candidate =
        Some (5
          + text_score (fst (snd (get_shape_signature target_shape)))
              (fst (snd (get_shape_signature candidate)))
          + hash_score (snd (snd (get_shape_signature target_shape)))
              (snd (snd (get_shape_signature candidate)))
          + position_score target_shape candidate))
   \<and> (shape_type candidate \<noteq> shape_type target_shape
        \<and> \<not> (shape_type target_shape \<in> {TEXT_BOX, AUTO_SHAPE, PLACEHOLDER}
               \<and> shape_type candidate \<in> {TEXT_BOX, AUTO_SHAPE, PLACEHOLDER}) \<longrightarrow>
      candidate_score target_shape candidate = None)
   \<and> (find_matching_shape target_shape candidate_shapes used_indices = (Some candidate, idx) \<longrightarrow>
      shape_type candidate = shape_type target_shape
      \<or> (shape_type target_shape \<in> {TEXT_BOX, AUTO_SHAPE, PLACEHOLDER}
          \<and> shape_type candidate \<in> {TEXT_BOX, AUTO_SHAPE, PLACEHOLDER}))
   \<and> (find_matching_shape target_shape candidate_shapes used_indices = (Some candidate, idx)
        \<and> (shape_type target_shape \<in> {TABLE, PICTURE, GROUP}
             \<or> shape_type candidate \<in> {TABLE, PICTURE, GROUP}) \<longrightarrow>
      shape_type candidate = shape_type target_shape)"
proof -
  have gate: "shape_type candidate = shape_type target_shape
      \<or> (shape_type target_shape \<in> {TEXT_BOX, AUTO_SHAPE, PLACEHOLDER}
          \<and> shape_type candidate \<in> {TEXT_BOX, AUTO_SHAPE, PLACEHOLDER})"
    if "find_matching_shape target_shape candidate_shapes used_indices = (Some candidate, idx)"
  proof -
    from find_matching_shape_Some [OF that]
    have "candidate_score target_shape candidate \<noteq> None" by blast
    then have "type_score (shape_type target_shape) (shape_type candidate) \<noteq> None"
      by (simp add: candidate_score_gate)
    then show ?thesis
      by (auto simp: type_score_None_iff TEXT_SHAPE_TYPES_def)
  qed
  show ?thesis
  proof (intro conjI impI)
    assume "find_matching_shape target_shape candidate_shapes used_indices = (Some candidate, idx)"
    then show "shape_type candidate = shape_type target_shape
      \<or> (shape_type target_shape \<in> {TEXT_BOX, AUTO_SHAPE, PLACEHOLDER}
          \<and> shape_type candidate \<in> {TEXT_BOX, AUTO_SHAPE, PLACEHOLDER})"
      by (rule gate)
  next
    assume "find_matching_shape target_shape candidate_shapes used_indices = (Some candidate, idx)
        \<and> (shape_type target_shape \<in> {TABLE, PICTURE, GROUP}
             \<or> shape_type candidate \<in> {TABLE, PICTURE, GROUP})"
    then show "shape_type candidate = shape_type target_shape"
      using gate by auto
  qed (auto simp: candidate_score_eq type_score_def TEXT_SHAPE_TYPES_def)
qed


theorem type_compatibility_gate_witness:
  "candidate_score
     (Shape TEXT_BOX (Some (str_of ''Title'')) (Some []) 0 0 100 50 None None None [])
     (Shape TEXT_BOX (Some (str_of ''Title'')) (Some []) 0 0 100 50 None None None []) = Some 120
   \<and> candidate_score
     (Shape TEXT_BOX (Some (str_of ''Title'')) (Some []) 0 0 100 50 None None None [])
     (Shape AUTO_SHAPE (Some (str_of ''Title'')) (Some []) 0 0 100 50 None None None []) = Some 115
   \<and> candidate_score
     (Shape PICTURE None None 500 500 200 200 (Some (str_of ''d41d8cd9'')) None None [])
     (Shape TABLE None None 500 500 200 200 None None None []) = None
   \<and> find_matching_shape
     (Shape PICTURE None None 500 500 200 200 (Some (str_of ''d41d8cd9'')) None None [])
     [Shape TABLE None None 500 500 200 200 None None None [],
      Shape PICTURE None None 500 500 200 200 (Some (str_of ''d41d8cd9'')) None None [] ] {}
     = (Some (Shape PICTURE None None 500 500 200 200 (Some (str_of ''d41d8cd9'')) None None []), 1)"
proof -
  let ?A = "Shape TEXT_BOX (Some (str_of ''Title'')) (Some []) 0 0 100 50 None None None []"
  let ?A' = "Shape AUTO_SHAPE (Some (str_of ''Title'')) (Some []) 0 0 100 50 None None None []"
  let ?P = "Shape PICTURE None None 500 500 200 200 (Some (str_of ''d41d8cd9'')) None None []"
  let ?T = "Shape TABLE None None 500 500 200 200 None None None []"
  have sA: "get_shape_signature ?A = (TEXT_BOX, str_of ''Title'', [])"
    and sA': "get_shape_signature ?A' = (AUTO_SHAPE, str_of ''Title'', [])"
    by code_simp+
  have ne: "str_of ''Title'' \<noteq> []" by (simp add: str_of_def)
  have found: "find_matching_shape ?P [?T, ?P] {} = (Some ?P, 1)"
    by code_simp
  from type_compatibility_gate [of ?A ?A "[]" "{}" 0]
    type_compatibility_gate [of ?A' ?A "[]" "{}" 0]
    type_compatibility_gate [of ?T ?P "[]" "{}" 0]
    type_compatibility_gate [of ?P ?P "[?T, ?P]" "{}" 1] found
  show ?thesis
    by (simp add: sA sA' ne text_score_def hash_score_def position_score_def)
qed

lemma pairing_loop_invariant:
  assumes "pairing_loop compare tests golden used claimed = (r, used', claimed')"
    and "distinct claimed" and "set claimed = used"
    and "\<forall>i\<in>used. 0 \<le> i \<and> i < int (length golden)"
  shows "distinct claimed' \<and> set claimed' = used'
         \<and> (\<forall>i\<in>used'. 0 \<le> i \<and> i < int (length golden))"
  using assms
proof (induction tests arbitrary: used claimed)
  case Nil
  then show ?case by simp
next
  case (Cons t tests)
  obtain m i where f: "find_matching_shape t golden used = (m, i)"
    by (cases "find_matching_shape t golden used")
  show ?case
  proof (cases m)
    case None
    with f Cons.prems show ?thesis by simp
  next
    case (Some g)
    from find_matching_shape_Some [OF f [unfolded Some] ]
    have i: "0 \<le> i" "nat i < length golden" "i \<notin> used" by simp_all
    have d: "distinct (claimed @ [i])" using Cons.prems(2,3) i(3) by simp
    have s: "set (claimed @ [i]) = insert i used" using Cons.prems(3) by simp
    have b: "\<forall>j\<in>insert i used. 0 \<le> j \<and> j < int (length golden)"
      using Cons.prems(4) i(1,2) by auto
    show ?thesis
    proof (cases "compare t g")
      case None
      with f Some Cons.prems(1) d s b show ?thesis by auto
    next
      case (Some result)
      show ?thesis
      proof (cases "result = 0")
        case True
        with f \<open>m = Some g\<close> Some Cons.prems(1) d s b show ?thesis by auto
      next
        case False
        with f \<open>m = Some g\<close> Some Cons.prems(1)
        have "pairing_loop compare tests golden (insert i used) (claimed @ [i]) = (r, used', claimed')"
          by simp
        from Cons.IH [OF this d s b] show ?thesis .
      qed
    qed
  qed
qed

text \<open>
  C10. The matcher never returns an index of the used set. In a pairing loop started with
  the empty set, which adds each returned index before the next query, the golden
  indices claimed by the successive test shapes are therefore pairwise distinct, they are
  exactly the used set, and each is an index into the golden shapes. This holds whatever
  the checks on the pairs are and wherever the loop stops.
\<close>

theorem claimed_golden_indices_distinct:
  "(find_matching_shape target_shape candidate_shapes used_indices = (Some candidate, idx) \<longrightarrow>
      idx \<notin> used_indices)
   \<and> (pairing_loop compare test_shapes golden_shapes {} [] = (result, used_golden_indices, claimed) \<longrightarrow>
      distinct claimed \<and> set claimed = used_golden_indices
      \<and> (\<forall>golden_idx\<in>used_golden_indices. 0 \<le> golden_idx \<and> golden_idx < int (length golden_shapes)))"
proof (rule conjI; rule impI)
  assume "find_matching_shape target_shape candidate_shapes used_indices = (Some candidate, idx)"
  from find_matching_shape_Some [OF this] show "idx \<notin> used_indices" by simp
next
  assume "pairing_loop compare test_shapes golden_shapes {} [] = (result, used_golden_indices, claimed)"
  from pairing_loop_invariant [OF this]
  show "distinct claimed \<and> set claimed = used_golden_indices
      \<and> (\<forall>golden_idx\<in>used_golden_indices. 0 \<le> golden_idx \<and> golden_idx < int (length golden_shapes))"
    by simp
qed

theorem claimed_golden_indices_distinct_witness:
  "find_matching_shape
     (Shape TEXT_BOX (Some (str_of ''Title'')) (Some []) 0 0 100 50 None None None [])
     [Shape TEXT_BOX (Some (str_of ''Title'')) (Some []) 0 0 100 50 None None None [],
      Shape TEXT_BOX (Some (str_of ''Title'')) (Some []) 0 0 100 50 None None None [] ] {0}
     = (Some (Shape TEXT_BOX (Some (str_of ''Title'')) (Some []) 0 0 100 50 None None None []), 1)
   \<and> (1::int) \<notin> {0}
   \<and> pairing_loop compare_matched_shapes
     [Shape TEXT_BOX (Some (str_of ''Title'')) (Some []) 0 0 100 50 None None None [],
      Shape PICTURE None None 500 500 200 200 (Some (str_of ''d41d8cd9'')) None None [] ]
     [Shape PICTURE None None 500 500 200 200 (Some (str_of ''d41d8cd9'')) None None [],
      Shape TEXT_BOX (Some (str_of ''Title'')) (Some []) 0 0 100 50 None None None [] ] {} []
     = (Some 1, {0, 1}, [1, 0])
   \<and> distinct [1, 0 :: int] \<and> set [1, 0 :: int] = {0, 1}"
proof -
  let ?A = "Shape TEXT_BOX (Some (str_of ''Title'')) (Some []) 0 0 100 50 None None None []"
  let ?P = "Shape PICTURE None None 500 500 200 200 (Some (str_of ''d41d8cd9'')) None None []"
  have found: "find_matching_shape ?A [?A, ?A] {0} = (Some ?A, 1)"
    by code_simp
  have paired: "pairing_loop compare_matched_shapes [?A, ?P] [?P, ?A] {} [] = (Some 1, {0, 1}, [1, 0])"
    by code_simp
  from claimed_golden_indices_distinct
         [of ?A "[?A, ?A]" "{0}" ?A 1 compare_matched_shapes "[?A, ?P]" "[?P, ?A]" "Some 1" "{0, 1}" "[1, 0]"]
       found paired
  show ?thesis by simp
qed



section \<open>Boolean equivalence of formatting flags\<close>

text \<open>
  C7. With \<^verbatim>\<open>treat_none_as_false\<close> set, an absent flag equals a false one, an absent
  flag differs from a true one, and true equals true; in general two flags are equivalent
  exactly when they are equal or both are among absent and false.
\<close>

theorem booleans_equivalent_tristate:
  "fonts_effectively_equal None (Some False) True = True
   \<and> fonts_effectively_equal None (Some True) True = False
   \<and> fonts_effectively_equal (Some True) (Some True) True = True
   \<and> fonts_effectively_equal a b True = (a = b \<or> (a \<in> {None, Some False} \<and> b \<in> {None, Some False}))"
  by (simp add: fonts_effectively_equal_def)

section \<open>Properties of the sequences of checks\<close>

lemma first_mismatch_Some_1:
  "first_mismatch cs = Some 1 \<longleftrightarrow> list_all (\<lambda>c. c = Some False) cs"
proof (induction cs)
  case Nil
  then show ?case by simp
next
  case (Cons c cs)
  then show ?case by (cases c) (auto split: bool.splits)
qed

lemma is_approximately_equal_refl: "is_approximately_equal v v tolerance = Some True"
  by (simp add: is_approximately_equal_def)

lemma compare_table_shape_position:
  assumes "compare_table_shape shape1 shape2 = Some result" "result \<noteq> 0"
  shows "\<bar>shape_left shape1 - shape_left shape2\<bar> \<le> 2000
         \<and> \<bar>shape_top shape1 - shape_top shape2\<bar> \<le> 2000"
  using assms
  by (auto simp: compare_table_shape_def POSITION_TOLERANCE_EMU_def split: if_splits)

section \<open>Run comparison of the word-document evaluator\<close>





text \<open>
  C4. A golden paragraph with the bold runs \<^verbatim>\<open>Hello \<close> and \<^verbatim>\<open>World\<close> and a candidate
  paragraph with the single bold run \<^verbatim>\<open>Hello World\<close>: merging reduces both sides to the
  one bold segment \<^verbatim>\<open>Hello World\<close>, and the run comparison reports a match without a
  failure code. This holds whatever the other formatting shared by the runs is.
\<close>

theorem split_bold_phrase_matches:
  "merge_consecutive_runs
     [\<lparr>rf_text = str_of ''Hello '', rf_bold = Some True, rf_italic = i, rf_underline = u,
       rf_font_size = fs, rf_font_name = fn\<rparr>,
      \<lparr>rf_text = str_of ''World'', rf_bold = Some True, rf_italic = i, rf_underline = u,
       rf_font_size = fs, rf_font_name = fn\<rparr>]
     = [\<lparr>rf_text = str_of ''Hello World'', rf_bold = Some True, rf_italic = i, rf_underline = u,
         rf_font_size = fs, rf_font_name = fn\<rparr>]
   \<and> merge_consecutive_runs
     [\<lparr>rf_text = str_of ''Hello World'', rf_bold = Some True, rf_italic = i, rf_underline = u,
       rf_font_size = fs, rf_font_name = fn\<rparr>]
     = [\<lparr>rf_text = str_of ''Hello World'', rf_bold = Some True, rf_italic = i, rf_underline = u,
         rf_font_size = fs, rf_font_name = fn\<rparr>]
   \<and> compare_runs_semantic
     [\<lparr>rf_text = str_of ''Hello World'', rf_bold = Some True, rf_italic = i, rf_underline = u,
       rf_font_size = fs, rf_font_name = fn\<rparr>]
     [\<lparr>rf_text = str_of ''Hello '', rf_bold = Some True, rf_italic = i, rf_underline = u,
       rf_font_size = fs, rf_font_name = fn\<rparr>,
      \<lparr>rf_text = str_of ''World'', rf_bold = Some True, rf_italic = i, rf_underline = u,
       rf_font_size = fs, rf_font_name = fn\<rparr>]
     para_index = (True, None)"
proof -
  have s: "strip (str_of ''Hello World'') \<noteq> []" by code_simp
  have e: "str_of ''Hello '' @ str_of ''World'' = str_of ''Hello World''"
    and ne: "str_of ''Hello '' \<noteq> []" "str_of ''World'' \<noteq> []" "str_of ''Hello World'' \<noteq> []"
    by (simp_all add: str_of_def)
  show ?thesis
    by (simp add: merge_consecutive_runs_def compare_runs_semantic_def normalize_formatting_def
        Let_def s e ne)
qed






section \<open>Self-comparison\<close>

subsection \<open>A shape is its own best match\<close>










subsection \<open>Every check passes on identical values\<close>

lemma any_not_all_True: "list_all (\<lambda>a. a = Some True) as \<Longrightarrow> any_not as = Some False"
  by (induction as) auto

lemma list_ex_zip_same: "list_ex P (zip xs xs) \<longleftrightarrow> (\<exists>x\<in>set xs. P (x, x))"
  by (induction xs) auto




lemma fonts_effectively_equal_refl: "fonts_effectively_equal v v flag = True"
  by (simp add: fonts_effectively_equal_def)

lemma table_run_mismatch_refl: "table_run_mismatch r r = False"
  by (simp add: table_run_mismatch_def Let_def fonts_effectively_equal_refl
      table_underline_mismatch_def underline_equal_def)

lemma table_cell_mismatch_refl: "table_cell_mismatch c c = False"
  by (simp add: table_cell_mismatch_def list_ex_zip_same table_run_mismatch_refl)





lemma compare_table_cells_refl:
  assumes "\<forall>(row_idx, col_idx)\<in>set idxs. table_cell t row_idx col_idx \<noteq> None"
  shows "compare_table_cells t t idxs = Some 1"
  using assms
  by (induction idxs) (auto simp: table_cell_mismatch_refl)

lemma well_formed_table_cells:
  assumes "well_formed_table t" "(row_idx, col_idx) \<in> set (cell_indices t)"
  shows "table_cell t row_idx col_idx \<noteq> None"
proof -
  from assms(2) have r: "row_idx < length (table_rows t)" and c: "col_idx < table_columns t"
    by (simp_all add: cell_indices_def)
  from assms(1) r have "table_columns t \<le> length (table_rows t ! row_idx)"
    by (simp add: well_formed_table_def list_all_length)
  with r c show ?thesis by (simp add: table_cell_def)
qed











section \<open>Table position tolerance\<close>

text \<open>
  C6. The table comparison fails whenever the left or the top positions differ by more
  than 2000 length units, whatever the magnitudes (there is no percentage fallback), and
  so does the inline table check of the positional variant; a drift of at most 2000 units
  in both, with everything else equal, is accepted by both. A table pair that the shape
  loop accepts has passed that check and the generic geometry check as well, so the
  policy for tables is at least as tight as the generic one; and it is strictly tighter,
  since there are positions the generic geometry comparison accepts and the table check
  rejects (left edges 1000000 and 1003000: 0.3 per cent apart, 3000 units apart).
\<close>

theorem table_position_tolerance:
  "(\<bar>shape_left shape1 - shape_left shape2\<bar> > 2000 \<or> \<bar>shape_top shape1 - shape_top shape2\<bar> > 2000 \<longrightarrow>
      compare_table_shape shape1 shape2 = Some 0 \<and> temp_validate_table shape1 shape2 = Some 0)
   \<and> (shape_type shape1 = TABLE \<and> compare_matched_shapes shape1 shape2 = Some 1 \<longrightarrow>
      \<bar>shape_left shape1 - shape_left shape2\<bar> \<le> 2000
      \<and> \<bar>shape_top shape1 - shape_top shape2\<bar> \<le> 2000
      \<and> compare_shape_geometry shape1 shape2 = Some True)
   \<and> (\<exists>left1 left2 top1 top2 table1 table2.
        compare_shape_geometry
          (Shape TABLE None None left1 top1 500000 300000 None None table1 [])
          (Shape TABLE None None left2 top2 500000 300000 None None table2 []) = Some True
        \<and> compare_table_shape
          (Shape TABLE None None left1 top1 500000 300000 None None table1 [])
          (Shape TABLE None None left2 top2 500000 300000 None None table2 []) = Some 0)
   \<and> (\<bar>x1 - x2\<bar> \<le> 2000 \<and> \<bar>y1 - y2\<bar> \<le> 2000 \<and> well_formed_table t \<longrightarrow>
        compare_table_shape
          (Shape ty1 tx1 tf1 x1 y1 wd ht im1 li1 (Some t) ch1)
          (Shape ty2 tx2 tf2 x2 y2 wd ht im2 li2 (Some t) ch2) = Some 1
        \<and> temp_validate_table
          (Shape ty1 tx1 tf1 x1 y1 wd ht im1 li1 (Some t) ch1)
          (Shape ty2 tx2 tf2 x2 y2 wd ht im2 li2 (Some t) ch2) = Some 1)"
proof (intro conjI impI)
  assume a: "\<bar>x1 - x2\<bar> \<le> 2000 \<and> \<bar>y1 - y2\<bar> \<le> 2000 \<and> well_formed_table t"
  then have cells: "compare_table_cells t t (cell_indices t) = Some 1"
    using well_formed_table_cells [of t] by (intro compare_table_cells_refl) auto
  from a cells show "compare_table_shape
          (Shape ty1 tx1 tf1 x1 y1 wd ht im1 li1 (Some t) ch1)
          (Shape ty2 tx2 tf2 x2 y2 wd ht im2 li2 (Some t) ch2) = Some 1"
    by (simp add: compare_table_shape_def POSITION_TOLERANCE_EMU_def is_approximately_equal_refl)
  from a show "temp_validate_table
          (Shape ty1 tx1 tf1 x1 y1 wd ht im1 li1 (Some t) ch1)
          (Shape ty2 tx2 tf2 x2 y2 wd ht im2 li2 (Some t) ch2) = Some 1"
    by (simp add: temp_validate_table_def POSITION_TOLERANCE_EMU_def is_approximately_equal_refl
        Let_def)
next
  assume "\<bar>shape_left shape1 - shape_left shape2\<bar> > 2000 \<or> \<bar>shape_top shape1 - shape_top shape2\<bar> > 2000"
  then show "compare_table_shape shape1 shape2 = Some 0"
    by (auto simp: compare_table_shape_def POSITION_TOLERANCE_EMU_def)
next
  assume "\<bar>shape_left shape1 - shape_left shape2\<bar> > 2000 \<or> \<bar>shape_top shape1 - shape_top shape2\<bar> > 2000"
  then show "temp_validate_table shape1 shape2 = Some 0"
    by (auto simp: temp_validate_table_def POSITION_TOLERANCE_EMU_def Let_def)
next
  assume a: "shape_type shape1 = TABLE \<and> compare_matched_shapes shape1 shape2 = Some 1"
  then have "compare_matched_shapes shape1 shape2 = Some 1" by (rule conjunct2)
  then have "list_all (\<lambda>c. c = Some False)
       [if shape_type shape1 = PICTURE
        then map_option (\<lambda>result. result = 0) (compare_picture_shape shape1 shape2)
        else Some False,
        if shape_type shape1 = TABLE
        then map_option (\<lambda>result. result = 0) (compare_table_shape shape1 shape2)
        else Some False,
        map_option Not (compare_shape_geometry shape1 shape2),
        if shape_text shape1 \<noteq> None \<and> shape_text shape2 \<noteq> None
        then map_option (\<lambda>result. result = 0) (compare_text_shape shape1 shape2)
        else Some False]"
    unfolding compare_matched_shapes_def first_mismatch_Some_1 .
  with a have t: "map_option (\<lambda>result. result = 0) (compare_table_shape shape1 shape2) = Some False"
    and g: "map_option Not (compare_shape_geometry shape1 shape2) = Some False"
    by simp_all
  from t obtain result where "compare_table_shape shape1 shape2 = Some result" "result \<noteq> 0"
    by auto
  from compare_table_shape_position [OF this]
  show "\<bar>shape_left shape1 - shape_left shape2\<bar> \<le> 2000"
    and "\<bar>shape_top shape1 - shape_top shape2\<bar> \<le> 2000" by simp_all
  from g show "compare_shape_geometry shape1 shape2 = Some True" by auto
next
  have g: "is_approximately_equal 1000000 1003000 default_tolerance = Some True"
    by (subst is_approximately_equal_default) simp_all
  have "compare_shape_geometry
          (Shape TABLE None None 1000000 0 500000 300000 None None None [])
          (Shape TABLE None None 1003000 0 500000 300000 None None None []) = Some True"
    by (simp add: compare_shape_geometry_def g is_approximately_equal_refl)
  moreover have "compare_table_shape
          (Shape TABLE None None 1000000 0 500000 300000 None None None [])
          (Shape TABLE None None 1003000 0 500000 300000 None None None []) = Some 0"
    by (simp add: compare_table_shape_def POSITION_TOLERANCE_EMU_def)
  ultimately show "\<exists>left1 left2 top1 top2 table1 table2.
        compare_shape_geometry
          (Shape TABLE None None left1 top1 500000 300000 None None table1 [])
          (Shape TABLE None None left2 top2 500000 300000 None None table2 []) = Some True
        \<and> compare_table_shape
          (Shape TABLE None None left1 top1 500000 300000 None None table1 [])
          (Shape TABLE None None left2 top2 500000 300000 None None table2 []) = Some 0"
    by blast
qed

theorem table_position_tolerance_witness:
  "compare_table_shape
     (Shape TABLE None None 1000000 0 500000 300000 None None
        (Some \<lparr>table_rows = [ [\<lparr>cell_text = str_of ''Q1'', cell_paragraphs = []\<rparr>] ], table_columns = 1\<rparr>) [])
     (Shape TABLE None None 1003000 0 500000 300000 None None
        (Some \<lparr>table_rows = [ [\<lparr>cell_text = str_of ''Q1'', cell_paragraphs = []\<rparr>] ], table_columns = 1\<rparr>) [])
     = Some 0
   \<and> compare_table_shape
     (Shape TABLE None None 1000000 0 500000 300000 None None
        (Some \<lparr>table_rows = [ [\<lparr>cell_text = str_of ''Q1'', cell_paragraphs = []\<rparr>] ], table_columns = 1\<rparr>) [])
     (Shape TABLE None None 1001500 0 500000 300000 None None
        (Some \<lparr>table_rows = [ [\<lparr>cell_text = str_of ''Q1'', cell_paragraphs = []\<rparr>] ], table_columns = 1\<rparr>) [])
     = Some 1
   \<and> compare_matched_shapes
     (Shape TABLE None None 1000000 0 500000 300000 None None
        (Some \<lparr>table_rows = [ [\<lparr>cell_text = str_of ''Q1'', cell_paragraphs = []\<rparr>] ], table_columns = 1\<rparr>) [])
     (Shape TABLE None None 1001500 0 500000 300000 None None
        (Some \<lparr>table_rows = [ [\<lparr>cell_text = str_of ''Q1'', cell_paragraphs = []\<rparr>] ], table_columns = 1\<rparr>) [])
     = Some 1
   \<and> compare_shape_geometry
     (Shape TABLE None None 1000000 0 500000 300000 None None
        (Some \<lparr>table_rows = [ [\<lparr>cell_text = str_of ''Q1'', cell_paragraphs = []\<rparr>] ], table_columns = 1\<rparr>) [])
     (Shape TABLE None None 1001500 0 500000 300000 None None
        (Some \<lparr>table_rows = [ [\<lparr>cell_text = str_of ''Q1'', cell_paragraphs = []\<rparr>] ], table_columns = 1\<rparr>) [])
     = Some True"
proof -
  let ?t = "\<lparr>table_rows = [ [\<lparr>cell_text = str_of ''Q1'', cell_paragraphs = []\<rparr>] ], table_columns = 1\<rparr>"
  have wf: "well_formed_table ?t"
    by (simp add: well_formed_table_def)
  have m: "compare_matched_shapes
     (Shape TABLE None None 1000000 0 500000 300000 None None (Some ?t) [])
     (Shape TABLE None None 1001500 0 500000 300000 None None (Some ?t) []) = Some 1"
    by code_simp
  from table_position_tolerance
         [where ?shape1.0 = "Shape TABLE None None 1000000 0 500000 300000 None None (Some ?t) []"
            and ?shape2.0 = "Shape TABLE None None 1003000 0 500000 300000 None None (Some ?t) []"
            and ?x1.0 = 1000000 and ?x2.0 = 1001500 and ?y1.0 = 0 and ?y2.0 = 0 and t = ?t
            and ?ty1.0 = TABLE and ?ty2.0 = TABLE and ?tx1.0 = None and ?tx2.0 = None
            and ?tf1.0 = None and ?tf2.0 = None and wd = 500000 and ht = 300000
            and ?im1.0 = None and ?im2.0 = None and ?li1.0 = None and ?li2.0 = None
            and ?ch1.0 = "[]" and ?ch2.0 = "[]"]
       table_position_tolerance
         [where ?shape1.0 = "Shape TABLE None None 1000000 0 500000 300000 None None (Some ?t) []"
            and ?shape2.0 = "Shape TABLE None None 1001500 0 500000 300000 None None (Some ?t) []"]
       wf m
  show ?thesis by simp
qed


end
